theory Spec2Isabelle
  imports Complex_Main "HOL-Library.Sublist"
begin

section \<open>Values, files and the world the modules act on\<close>

text \<open>
  The four modules (\<^verbatim>\<open>progress.py\<close>, \<^verbatim>\<open>job_registry.py\<close>, \<^verbatim>\<open>clone_worker.py\<close>,
  \<^verbatim>\<open>repo_cache.py\<close>) keep no state of their own besides the process registry
  \<^verbatim>\<open>_PROCS\<close>: everything else lives in files under \<^verbatim>\<open>outputs/\<close>. The model threads one
  record \<open>world\<close> through every function.  A Python \<^verbatim>\<open>str\<close> is the list of its UTF-8
  bytes, and the texts the modules handle are ASCII (character classes such as
  \<^verbatim>\<open>isalnum\<close>, \<^verbatim>\<open>\s\<close>, \<^verbatim>\<open>\d\<close> and \<^verbatim>\<open>lower\<close> are the ASCII ones).  The one exception is a lone
  surrogate code point (\<^verbatim>\<open>U+D800\<close> to \<^verbatim>\<open>U+DFFF\<close>), which a Python \<^verbatim>\<open>str\<close> may hold but
  UTF-8 cannot encode: it is written as the three bytes \<^verbatim>\<open>ED A0..BF xx\<close>, a sequence that
  no encodable text contains.  JSON documents are values of \<open>jval\<close>; the modules never
  write a float, so \<open>jval\<close> has none.  A progress record is a Python dict with string
  keys: a map.

  Names are the source's, without the leading underscore of the private ones.  What
  the operating system, the clock and the child process decide is an input of the
  model: a write that fails (and is swallowed by the source) is a path in
  \<open>unwritable\<close>, exceptions of library calls and the behaviour of the child are fields
  of \<open>env\<close>.  Progress files are only written by \<^verbatim>\<open>progress.py\<close> and the ledger only by
  \<^verbatim>\<open>job_registry.py\<close>, so a readable file holds a dict, respectively a list of complete
  job records.
\<close>

datatype jval =
    JNull
  | JBool bool
  | JInt int
  | JStr string
  | JList "jval list"
  | JObj "(string \<times> jval) list"

type_synonym pydict = "string \<rightharpoonup> jval"

text \<open>Python truthiness (\<^verbatim>\<open>bool(x)\<close>, \<^verbatim>\<open>if x:\<close>, \<^verbatim>\<open>x or y\<close>) of a JSON value.\<close>

fun truthy :: "jval \<Rightarrow> bool" where
  "truthy JNull = False"
| "truthy (JBool b) = b"
| "truthy (JInt n) = (n \<noteq> 0)"
| "truthy (JStr s) = (s \<noteq> [])"
| "truthy (JList xs) = (xs \<noteq> [])"
| "truthy (JObj kvs) = (kvs \<noteq> [])"

text \<open>\<^verbatim>\<open>d.get(k)\<close> followed by a truth test: a missing key reads as \<^verbatim>\<open>None\<close>, which is false.\<close>

definition truthy_opt :: "jval option \<Rightarrow> bool" where
  "truthy_opt v = (case v of None \<Rightarrow> False | Some x \<Rightarrow> truthy x)"

text \<open>\<^verbatim>\<open>a or b\<close> on the results of two \<^verbatim>\<open>dict.get\<close> calls.\<close>

definition py_or :: "jval option \<Rightarrow> jval option \<Rightarrow> jval option" where
  "py_or a b = (if truthy_opt a then a else b)"

subsection \<open>Decimal rendering, timestamps\<close>

definition digit_char :: "nat \<Rightarrow> char" where
  "digit_char d = ''0123456789'' ! (d mod 10)"

fun str_nat :: "nat \<Rightarrow> string" where
  "str_nat n = (if n < 10 then [digit_char n] else str_nat (n div 10) @ [digit_char (n mod 10)])"

declare str_nat.simps [simp del]

text \<open>\<^verbatim>\<open>str(n)\<close> and \<^verbatim>\<open>f"{n}"\<close> for a Python int.\<close>

definition str_int :: "int \<Rightarrow> string" where
  "str_int i = (if i < 0 then CHR ''-'' # str_nat (nat (- i)) else str_nat (nat i))"

definition zero_pad :: "nat \<Rightarrow> string \<Rightarrow> string" where
  "zero_pad k s = replicate (k - length s) (CHR ''0'') @ s"

record datetime =
  dt_year :: nat
  dt_month :: nat
  dt_day :: nat
  dt_hour :: nat
  dt_minute :: nat
  dt_second :: nat

text \<open>\<^verbatim>\<open>datetime.isoformat(timespec="seconds")\<close> of a naive datetime: \<^verbatim>\<open>YYYY-MM-DDTHH:MM:SS\<close>.\<close>

definition isoformat :: "datetime \<Rightarrow> string" where
  "isoformat d =
     zero_pad 4 (str_nat (dt_year d)) @ ''-'' @ zero_pad 2 (str_nat (dt_month d)) @ ''-'' @
     zero_pad 2 (str_nat (dt_day d)) @ ''T'' @ zero_pad 2 (str_nat (dt_hour d)) @ '':'' @
     zero_pad 2 (str_nat (dt_minute d)) @ '':'' @ zero_pad 2 (str_nat (dt_second d))"

subsection \<open>Job records and the world\<close>

text \<open>
  A job is the dict \<^verbatim>\<open>create_job\<close> builds; every record in the ledger has all eleven
  keys, so it is a record here.  \<open>agent\<close> and \<open>priority\<close> hold JSON values because
  \<^verbatim>\<open>update_job\<close> may lift any value out of the caller's \<^verbatim>\<open>details\<close>.  A history entry
  \<^verbatim>\<open>{"at": a, "status": s}\<close> is the pair \<open>(a, s)\<close>.
\<close>

record job =
  j_id :: string
  j_repo_url :: string
  j_status :: string
  j_agent :: jval
  j_priority :: jval
  j_date :: string
  j_created_at :: string
  j_updated_at :: string
  j_ended_at :: string
  j_details :: pydict
  j_history :: "(string \<times> string) list"

text \<open>
  The state of one cache path on disk, as far as \<^verbatim>\<open>get_cached_path\<close> can tell:
  nothing there, something that is not a directory, or a directory with or without
  a \<^verbatim>\<open>.git\<close> entry.
\<close>

datatype slot = Missing | NotDir | Dir bool

text \<open>
  \<^item> \<open>progress_files\<close>: the JSON documents under \<^verbatim>\<open>outputs/progress\<close>, by path; a missing or
    unparsable file is \<open>None\<close>.
  \<^item> \<open>progress_log\<close>: every document written to a progress file, oldest first.
  \<^item> \<open>jobs_json\<close>: the list in \<^verbatim>\<open>outputs/jobs.json\<close>; \<open>None\<close> when missing or unparsable.
  \<^item> \<open>unwritable\<close>: paths on which \<^verbatim>\<open>open(path, "w")\<close> raises.
  \<^item> \<open>cache\<close>: the state of each path under \<^verbatim>\<open>outputs/cache\<close>.
  \<^item> \<open>PROCS\<close>: the module-level registry of \<^verbatim>\<open>clone_worker\<close>, task id to process id.
  \<^item> \<open>spawned\<close>: every (process id, command line) given to \<^verbatim>\<open>subprocess.Popen\<close>, oldest first.
  \<^item> \<open>killed\<close>: process ids that were sent \<^verbatim>\<open>terminate()\<close> and \<^verbatim>\<open>kill()\<close>.
  \<^item> \<open>clock\<close>: what \<^verbatim>\<open>datetime.now()\<close> reads.
\<close>

record world =
  progress_files :: "string \<rightharpoonup> pydict"
  progress_log :: "(string \<times> pydict) list"
  jobs_json :: "job list option"
  unwritable :: "string set"
  cache :: "string \<Rightarrow> slot"
  PROCS :: "string \<rightharpoonup> nat"
  spawned :: "(nat \<times> string list) list"
  killed :: "nat list"
  clock :: datetime

section \<open>job\_registry.py\<close>

definition REG_PATH :: string where
  "REG_PATH = ''outputs/jobs.json''"

definition now :: "world \<Rightarrow> string" where
  "now w = isoformat (clock w)"

definition load :: "world \<Rightarrow> job list" where
  "load w = (case jobs_json w of None \<Rightarrow> [] | Some js \<Rightarrow> js)"

definition save :: "world \<Rightarrow> job list \<Rightarrow> world" where
  "save w js = (if REG_PATH \<in> unwritable w then w else w\<lparr>jobs_json := Some js\<rparr>)"

definition get_jobs :: "world \<Rightarrow> job list" where
  "get_jobs w = load w"

text \<open>\<^verbatim>\<open>str.lower()\<close> on ASCII.\<close>

definition lower_char :: "char \<Rightarrow> char" where
  "lower_char c =
     (case map_of (zip ''ABCDEFGHIJKLMNOPQRSTUVWXYZ'' ''abcdefghijklmnopqrstuvwxyz'') c of
        Some l \<Rightarrow> l
      | None \<Rightarrow> c)"

definition lower :: "string \<Rightarrow> string" where
  "lower s = map lower_char s"

definition create_job :: "world \<Rightarrow> string \<Rightarrow> string \<Rightarrow> world" where
  "create_job w task_id repo_url =
     (let jobs = load w;
          jobs = filter (\<lambda>j. j_id j \<noteq> task_id) jobs;
          jobs = jobs @
            [\<lparr>j_id = task_id,
              j_repo_url = repo_url,
              j_status = ''pending'',
              j_agent = JStr ''CodeAnalyzer'',
              j_priority = JStr ''medium'',
              j_date = now w,
              j_created_at = now w,
              j_updated_at = now w,
              j_ended_at = [],
              j_details = [''stage'' \<mapsto> JStr ''start''],
              j_history = [(now w, ''pending'')]\<rparr>]
      in save w jobs)"

text \<open>The fixed status-to-agent table of \<^verbatim>\<open>update_job\<close>, on the lower-cased status.\<close>

definition mapped_agent :: "string \<Rightarrow> string option" where
  "mapped_agent s =
     (if s = ''completed'' then Some ''DocGenerator''
      else if s \<in> {''error'', ''canceled'', ''timeout''} then Some ''Supervisor''
      else if s \<in> {''pending'', ''in_progress''} then Some ''CodeAnalyzer''
      else None)"

text \<open>
  The \<^verbatim>\<open>if details:\<close> block: merge into the nested details, lift agent and priority.
  The test skips \<^verbatim>\<open>None\<close> and also an empty dict, for which the block would change
  nothing.
\<close>

definition merge_details :: "pydict option \<Rightarrow> job \<Rightarrow> job" where
  "merge_details details j =
     (case details of
        None \<Rightarrow> j
      | Some ds \<Rightarrow>
          (let j = j\<lparr>j_details := j_details j ++ ds\<rparr>;
               j = (case ds ''agent'' of Some a \<Rightarrow> j\<lparr>j_agent := a\<rparr> | None \<Rightarrow> j);
               j = (case ds ''priority'' of Some p \<Rightarrow> j\<lparr>j_priority := p\<rparr> | None \<Rightarrow> j)
           in j))"

text \<open>The body of the \<^verbatim>\<open>for j in jobs\<close> loop for the record whose id matches.\<close>

definition update_record :: "string \<Rightarrow> string \<Rightarrow> pydict option \<Rightarrow> job \<Rightarrow> job" where
  "update_record ts status details j =
     (let j = j\<lparr>j_status := status\<rparr>;
          j = merge_details details j;
          s = lower status;
          j = (case mapped_agent s of
                 None \<Rightarrow> j
               | Some a \<Rightarrow> j\<lparr>j_agent := JStr a, j_details := (j_details j)(''agent'' \<mapsto> JStr a)\<rparr>);
          j = j\<lparr>j_updated_at := ts\<rparr>;
          j = j\<lparr>j_history := j_history j @ [(ts, status)]\<rparr>;
          j = (if status \<in> {''completed'', ''canceled'', ''error'', ''timeout''}
               then j\<lparr>j_ended_at := ts\<rparr> else j)
      in j)"

text \<open>The loop itself: the first record with the id is updated, then \<^verbatim>\<open>break\<close>.\<close>

fun update_first :: "string \<Rightarrow> (job \<Rightarrow> job) \<Rightarrow> job list \<Rightarrow> job list" where
  "update_first task_id f [] = []"
| "update_first task_id f (j # js) =
     (if j_id j = task_id then f j # js else j # update_first task_id f js)"

definition update_job :: "world \<Rightarrow> string \<Rightarrow> string \<Rightarrow> pydict option \<Rightarrow> world" where
  "update_job w task_id status details =
     (let jobs = load w;
          jobs = update_first task_id (update_record (now w) status details) jobs
      in save w jobs)"

section \<open>progress.py\<close>

definition BASE_DIR :: string where
  "BASE_DIR = ''outputs/progress''"

definition is_alnum :: "char \<Rightarrow> bool" where
  "is_alnum c = (let n = (of_char c :: nat) in
     (48 \<le> n \<and> n \<le> 57) \<or> (65 \<le> n \<and> n \<le> 90) \<or> (97 \<le> n \<and> n \<le> 122))"

definition safe_chars :: "string \<Rightarrow> string" where
  "safe_chars s = filter (\<lambda>c. is_alnum c \<or> c = CHR ''-'' \<or> c = CHR ''_'') s"

text \<open>\<^verbatim>\<open>os.path.join\<close> of two components (POSIX).\<close>

definition path_join :: "string \<Rightarrow> string \<Rightarrow> string" where
  "path_join a b =
     (if b \<noteq> [] \<and> hd b = CHR ''/'' then b
      else if a = [] \<or> last a = CHR ''/'' then a @ b
      else a @ ''/'' @ b)"

definition path :: "string \<Rightarrow> string" where
  "path task_id =
     (let safe = (if safe_chars task_id = [] then ''default'' else safe_chars task_id)
      in path_join BASE_DIR (safe @ ''.json''))"

text \<open>\<^verbatim>\<open>with open(p, "w") as f: json.dump(data, f)\<close> inside \<^verbatim>\<open>try/except: pass\<close>.\<close>

definition write_progress :: "world \<Rightarrow> string \<Rightarrow> pydict \<Rightarrow> world" where
  "write_progress w p data =
     (if p \<in> unwritable w then w
      else w\<lparr>progress_files := (progress_files w)(p \<mapsto> data),
             progress_log := progress_log w @ [(p, data)]\<rparr>)"

definition stage_map :: "string \<rightharpoonup> int" where
  "stage_map = map_of
     [(''validate'', 5), (''cache'', 15), (''clone'', 40), (''map'', 60), (''mapped'', 60),
      (''analyze'', 75), (''analyzed'', 80), (''docs'', 90), (''complete'', 100)]"

text \<open>
  \<^verbatim>\<open>stage_map.get(str(stage), 10)\<close>: \<^verbatim>\<open>str\<close> of anything but a string (\<^verbatim>\<open>None\<close>, a
  number, a list) is never one of the nine keys.
\<close>

definition stage_percent :: "jval option \<Rightarrow> int" where
  "stage_percent stage =
     (case stage of
        Some (JStr s) \<Rightarrow> (case stage_map s of Some n \<Rightarrow> n | None \<Rightarrow> 10)
      | _ \<Rightarrow> 10)"

definition put_if_truthy :: "string \<Rightarrow> jval option \<Rightarrow> pydict \<Rightarrow> pydict" where
  "put_if_truthy k v out = (if truthy_opt v then out(k := v) else out)"

definition infer_from_jobs :: "world \<Rightarrow> string \<Rightarrow> pydict option" where
  "infer_from_jobs w task_id =
     (case find (\<lambda>j. j_id j = task_id) (get_jobs w) of
        None \<Rightarrow> None
      | Some job \<Rightarrow>
          (let status = j_status job;
               details = j_details job;
               stage = details ''stage'';
               msg = py_or (details ''message'') (details ''note'');
               doc_path = details ''doc_path'';
               percent = stage_percent stage;
               (percent, status_out) =
                 (if status = ''completed'' \<or> status = ''done'' then (100, ''done'')
                  else if status = ''error'' \<or> status = ''timeout'' then (max percent 100, status)
                  else if status = ''canceled'' then (percent, ''canceled'')
                  else (percent, ''pending''));
               out = [''task_id'' \<mapsto> JStr task_id, ''status'' \<mapsto> JStr status_out,
                      ''percent'' \<mapsto> JInt percent]
           in Some (put_if_truthy ''doc_path'' doc_path
                     (put_if_truthy ''message'' msg
                       (put_if_truthy ''stage'' stage out)))))"

definition get_progress :: "world \<Rightarrow> string \<Rightarrow> pydict" where
  "get_progress w task_id =
     (case progress_files w (path task_id) of
        Some data \<Rightarrow> data
      | None \<Rightarrow>
          (case infer_from_jobs w task_id of
             Some inferred \<Rightarrow> inferred
           | None \<Rightarrow> [''task_id'' \<mapsto> JStr task_id, ''status'' \<mapsto> JStr ''unknown'',
                       ''percent'' \<mapsto> JInt 0]))"

text \<open>
  \<^verbatim>\<open>if extra: data.update(extra)\<close>.  \<open>None\<close> is the default argument; the test also
  skips an empty dict, for which the update would change nothing.
\<close>

definition update_extra :: "pydict \<Rightarrow> pydict option \<Rightarrow> pydict" where
  "update_extra data extra =
     (case extra of
        None \<Rightarrow> data
      | Some e \<Rightarrow> data ++ e)"

definition set_progress :: "world \<Rightarrow> string \<Rightarrow> string \<Rightarrow> int \<Rightarrow> pydict option \<Rightarrow> world" where
  "set_progress w task_id status percent extra =
     (let data = get_progress w task_id;
          data = data ++ [''task_id'' \<mapsto> JStr task_id, ''status'' \<mapsto> JStr status,
                          ''percent'' \<mapsto> JInt (max 0 (min 100 percent))];
          data = update_extra data extra
      in write_progress w (path task_id) data)"

definition set_canceled :: "world \<Rightarrow> string \<Rightarrow> string \<Rightarrow> world" where
  "set_canceled w task_id message =
     (let data = get_progress w task_id;
          data = data ++ [''status'' \<mapsto> JStr ''canceled'',
                          ''percent'' \<mapsto> (case data ''percent'' of None \<Rightarrow> JInt 0 | Some v \<Rightarrow> v),
                          ''canceled'' \<mapsto> JBool True];
          data = (if message \<noteq> [] then data(''message'' \<mapsto> JStr message) else data)
      in write_progress w (path task_id) data)"

definition is_canceled :: "world \<Rightarrow> string \<Rightarrow> bool" where
  "is_canceled w task_id = truthy_opt (get_progress w task_id ''canceled'')"

definition clear_progress :: "world \<Rightarrow> string \<Rightarrow> world" where
  "clear_progress w task_id = w\<lparr>progress_files := (progress_files w)(path task_id := None)\<rparr>"

section \<open>clone\_worker.py\<close>

subsection \<open>The three progress patterns\<close>

definition is_space :: "char \<Rightarrow> bool" where
  "is_space c = (let n = (of_char c :: nat) in (9 \<le> n \<and> n \<le> 13) \<or> (28 \<le> n \<and> n \<le> 32))"

definition is_digit :: "char \<Rightarrow> bool" where
  "is_digit c = (let n = (of_char c :: nat) in 48 \<le> n \<and> n \<le> 57)"

text \<open>
  A match of \<^verbatim>\<open>LABEL\s+(\d+)%\<close> starting at the head of \<open>s\<close>; the result is group 1.
  The classes \<^verbatim>\<open>\s\<close>, \<^verbatim>\<open>\d\<close> and the literal \<^verbatim>\<open>%\<close> are pairwise disjoint, so the greedy
  match is the only candidate at a given start.
\<close>

definition rx_match :: "string \<Rightarrow> string \<Rightarrow> string option" where
  "rx_match label s =
     (if \<not> prefix label s then None
      else
        (let r = drop (length label) s;
             r1 = dropWhile is_space r;
             ds = takeWhile is_digit r1;
             r2 = dropWhile is_digit r1
         in if r1 = r \<or> ds = [] then None
            else if r2 \<noteq> [] \<and> hd r2 = CHR ''%'' then Some ds
            else None))"

text \<open>\<^verbatim>\<open>rx.search(line)\<close>: the leftmost start that matches.\<close>

fun rx_search :: "string \<Rightarrow> string \<Rightarrow> string option" where
  "rx_search label [] = rx_match label []"
| "rx_search label (c # s) =
     (case rx_match label (c # s) of
        Some ds \<Rightarrow> Some ds
      | None \<Rightarrow> rx_search label s)"

definition RECV_RE :: string where "RECV_RE = ''Receiving objects:''"
definition RESV_RE :: string where "RESV_RE = ''Resolving deltas:''"
definition CHK_RE :: string where "CHK_RE = ''Checking out files:''"

definition digit_val :: "char \<Rightarrow> nat" where
  "digit_val c = of_char c - 48"

text \<open>
  \<^verbatim>\<open>int(m.group(1))\<close> inside \<^verbatim>\<open>try/except: return None\<close>.  CPython refuses a decimal
  string of more than 4300 digits with a \<^verbatim>\<open>ValueError\<close>.
\<close>

definition int_of_digits :: "string \<Rightarrow> nat option" where
  "int_of_digits ds =
     (if length ds > 4300 then None
      else Some (foldl (\<lambda>n c. 10 * n + digit_val c) 0 ds))"

fun first_match :: "string list \<Rightarrow> string \<Rightarrow> string option" where
  "first_match [] line = None"
| "first_match (rx # rxs) line =
     (case rx_search rx line of
        Some ds \<Rightarrow> Some ds
      | None \<Rightarrow> first_match rxs line)"

definition parse_progress :: "string \<Rightarrow> nat option" where
  "parse_progress line =
     (case first_match [RECV_RE, RESV_RE, CHK_RE] line of
        Some ds \<Rightarrow> int_of_digits ds
      | None \<Rightarrow> None)"

subsection \<open>What the environment supplies\<close>

text \<open>
  An exception raised by the standard library.  The handlers tell
  \<^verbatim>\<open>FileNotFoundError\<close> from everything else, of which only \<^verbatim>\<open>str(e)\<close> is used.
\<close>

datatype exn = FileNotFoundError | Exception string

text \<open>
  What another thread does to this task between two iterations of a supervising
  loop: \<^verbatim>\<open>set_canceled\<close>, \<^verbatim>\<open>cancel_clone\<close> or \<^verbatim>\<open>clear_progress\<close> on the same task id.
\<close>

datatype ext = ExtSetCanceled string | ExtCancelClone | ExtClearProgress

text \<open>\<^verbatim>\<open>proc.stderr.readline()\<close>: the text read (empty at end of file), or an exception.\<close>

datatype read_result = Readline string | ReadRaises exn

text \<open>
  One iteration of a supervising loop as the environment presents it: an optional
  action of another thread just before it, the reading of \<^verbatim>\<open>time.time()\<close>, the result
  of \<^verbatim>\<open>readline()\<close>, and what \<^verbatim>\<open>proc.poll()\<close> would answer (the exit code once the child
  has ended).  Clock readings are exact numbers rather than floats.  The loop reads
  the clock once per iteration, before it reads a line.  The pipe is opened in
  blocking mode, so \<^verbatim>\<open>readline()\<close> waits until the child writes a line or closes its
  end: \<open>t_after\<close> is what the clock shows when it returns.  The loop never reads the
  clock at that point; the next iteration's \<open>t_now\<close> is its next reading.
\<close>

record tick =
  t_ext :: "ext option"
  t_now :: real
  t_read :: read_result
  t_poll :: "int option"
  t_after :: real

text \<open>
  \<^item> \<open>e_mkdtemp\<close>: \<^verbatim>\<open>tempfile.mkdtemp()\<close>.
  \<^item> \<open>e_rmtree_left\<close>: what \<^verbatim>\<open>shutil.rmtree(p, ignore_errors=True)\<close> leaves of a directory:
    \<open>None\<close> when it removed everything, the remaining state when errors were ignored.
  \<^item> \<open>e_makedirs\<close>: the exception of \<^verbatim>\<open>os.makedirs(..., exist_ok=True)\<close>, if any.
  \<^item> \<open>e_which_git\<close>: whether \<^verbatim>\<open>shutil.which("git")\<close> finds the binary.
  \<^item> \<open>e_spawn\<close>: \<^verbatim>\<open>subprocess.Popen(cmd, ...)\<close>: the new process id or the exception.
  \<^item> \<open>e_start\<close>: the reading of \<^verbatim>\<open>time.time()\<close> right after the spawn.
  \<^item> \<open>e_ticks\<close>: the iterations of the supervising loop that the environment lets happen.
  \<^item> \<open>e_child\<close>: what the child process makes of its target path, from the state in which
    it finds the path when it is spawned to the state in which the path is when the
    call returns.
  \<^item> \<open>e_communicate\<close>: the stderr text of \<^verbatim>\<open>proc.communicate(timeout=1)\<close>, \<open>None\<close> if it raises.
\<close>

record env =
  e_mkdtemp :: "exn + string"
  e_rmtree_left :: "slot option"
  e_makedirs :: "exn option"
  e_which_git :: bool
  e_spawn :: "exn + nat"
  e_start :: real
  e_ticks :: "tick list"
  e_child :: "slot \<Rightarrow> slot"
  e_communicate :: "string option"

subsection \<open>cancel\_clone and the supervising loop\<close>

text \<open>\<^verbatim>\<open>proc.terminate()\<close> then \<^verbatim>\<open>proc.kill()\<close>, each inside \<^verbatim>\<open>try/except: pass\<close>.\<close>

definition terminate_kill :: "world \<Rightarrow> nat \<Rightarrow> world" where
  "terminate_kill w pid = w\<lparr>killed := killed w @ [pid]\<rparr>"

definition PROCS_pop :: "world \<Rightarrow> string \<Rightarrow> world" where
  "PROCS_pop w task_id = w\<lparr>PROCS := (PROCS w)(task_id := None)\<rparr>"

definition cancel_clone :: "world \<Rightarrow> string \<Rightarrow> world \<times> bool" where
  "cancel_clone w task_id =
     (case PROCS w task_id of
        None \<Rightarrow> (set_canceled w task_id ''No running process'', False)
      | Some p \<Rightarrow>
          (let w = terminate_kill w p;
               w = set_canceled w task_id ''Canceled by user'';
               w = PROCS_pop w task_id
           in (w, True)))"

definition apply_ext :: "string \<Rightarrow> ext option \<Rightarrow> world \<Rightarrow> world" where
  "apply_ext task_id x w =
     (case x of
        None \<Rightarrow> w
      | Some (ExtSetCanceled m) \<Rightarrow> set_canceled w task_id m
      | Some ExtCancelClone \<Rightarrow> fst (cancel_clone w task_id)
      | Some ExtClearProgress \<Rightarrow> clear_progress w task_id)"

text \<open>
  How a run of a \<^verbatim>\<open>while True\<close> loop ends: the environment's iterations are used up
  and the loop is still going, \<^verbatim>\<open>return\<close> with a value, \<^verbatim>\<open>break\<close> with the exit code
  that \<^verbatim>\<open>poll()\<close> has just seen (which \<^verbatim>\<open>proc.wait\<close> then returns), or a raised exception.
  \<^verbatim>\<open>proc.stderr\<close> is never \<^verbatim>\<open>None\<close> because the child is spawned with
  \<^verbatim>\<open>stderr=subprocess.PIPE\<close>, so that \<^verbatim>\<open>break\<close> is not modelled.
\<close>

datatype loop_exit =
    Running world
  | Returned world string
  | Broke world int
  | Raised world exn

text \<open>
  \<^verbatim>\<open>0.6 * p\<close> converts \<open>p\<close> to a float, which raises \<^verbatim>\<open>OverflowError\<close> from
  \<open>2^1024 - 2^970\<close> on.
\<close>

definition float_overflow :: "nat \<Rightarrow> bool" where
  "float_overflow p = (p \<ge> 2 ^ 1024 - 2 ^ 970)"

text \<open>
  \<^verbatim>\<open>mapped = 20 + int(0.6 * p)\<close>.  For \<open>p < 2^53\<close> the product in double precision
  truncates to \<open>3 * p div 5\<close>; for larger \<open>p\<close> both numbers are far above 100 and
  \<^verbatim>\<open>set_progress\<close> clamps either to 100.
\<close>

definition mapped :: "nat \<Rightarrow> int" where
  "mapped p = 20 + (3 * int p) div 5"

definition clone_iteration :: "string \<Rightarrow> nat \<Rightarrow> real \<Rightarrow> int \<Rightarrow> world \<Rightarrow> tick \<Rightarrow> loop_exit" where
  "clone_iteration task_id proc start max_seconds w0 t =
     (let w = apply_ext task_id (t_ext t) w0 in
      if is_canceled w task_id then
        Returned (terminate_kill (set_canceled w task_id ''Canceled by user'') proc) []
      else if t_now t - start > of_int max_seconds then
        Returned (terminate_kill
          (set_progress w task_id ''timeout'' 100 (Some [''message'' \<mapsto> JStr ''Clone timed out'']))
          proc) []
      else
        (case t_read t of
           ReadRaises e \<Rightarrow> Raised w e
         | Readline line \<Rightarrow>
             if line = [] then
               (case t_poll t of Some code \<Rightarrow> Broke w code | None \<Rightarrow> Running w)
             else
               (case parse_progress line of
                  None \<Rightarrow> Running w
                | Some p \<Rightarrow>
                    if float_overflow p
                    then Raised w (Exception ''int too large to convert to float'')
                    else Running (set_progress w task_id ''cloning'' (mapped p)
                                    (Some [''stage'' \<mapsto> JStr ''clone''])))))"

fun clone_loop :: "string \<Rightarrow> nat \<Rightarrow> real \<Rightarrow> int \<Rightarrow> world \<Rightarrow> tick list \<Rightarrow> loop_exit" where
  "clone_loop task_id proc start max_seconds w [] = Running w"
| "clone_loop task_id proc start max_seconds w (t # ts) =
     (case clone_iteration task_id proc start max_seconds w t of
        Running w' \<Rightarrow> clone_loop task_id proc start max_seconds w' ts
      | r \<Rightarrow> r)"

subsection \<open>interruptible\_clone\<close>

fun contains :: "string \<Rightarrow> string \<Rightarrow> bool" where
  "contains sub [] = (sub = [])"
| "contains sub (c # s) = (prefix sub (c # s) \<or> contains sub s)"

definition invalid_url :: "string \<Rightarrow> bool" where
  "invalid_url url = (url = [] \<or> \<not> contains ''github.com'' url)"

definition rstrip_slash :: "string \<Rightarrow> string" where
  "rstrip_slash s = rev (dropWhile (\<lambda>c. c = CHR ''/'') (rev s))"

text \<open>\<^verbatim>\<open>s.split("/")[-1]\<close>\<close>

definition last_component :: "string \<Rightarrow> string" where
  "last_component s = rev (takeWhile (\<lambda>c. c \<noteq> CHR ''/'') (rev s))"

definition strip_git :: "string \<Rightarrow> string" where
  "strip_git name = (if suffix ''.git'' name then take (length name - 4) name else name)"

definition repo_name :: "string \<Rightarrow> string" where
  "repo_name url = strip_git (last_component (rstrip_slash url))"

definition clone_cmd :: "int \<Rightarrow> string \<Rightarrow> string \<Rightarrow> string list" where
  "clone_cmd depth url target =
     [''git'', ''clone'', ''--progress'', ''--depth='' @ str_int depth, url, target]"

text \<open>The two handlers closing \<^verbatim>\<open>interruptible_clone\<close>.\<close>

definition clone_except :: "world \<Rightarrow> string \<Rightarrow> exn \<Rightarrow> world" where
  "clone_except w task_id e =
     (case e of
        FileNotFoundError \<Rightarrow>
          set_progress w task_id ''error'' 100 (Some [''message'' \<mapsto> JStr ''git not found in PATH''])
      | Exception m \<Rightarrow>
          set_progress w task_id ''error'' 100 (Some [''message'' \<mapsto> JStr m]))"

text \<open>
  \<^verbatim>\<open>interruptible_clone\<close> in three parts.  \<open>clone_start\<close> is everything before the
  \<^verbatim>\<open>while\<close> loop: it either returns the empty string early (\<open>Inl\<close>, with the world it
  leaves) or enters the loop (\<open>Inr\<close>: the world at loop entry, the process and
  \<^verbatim>\<open>repo_path\<close>).
\<close>

definition clone_start ::
  "world \<Rightarrow> string \<Rightarrow> string \<Rightarrow> int \<Rightarrow> env \<Rightarrow> world + (world \<times> nat \<times> string)" where
  "clone_start w task_id url depth ev =
     (if invalid_url url then
        Inl (set_progress w task_id ''error'' 100 (Some [''message'' \<mapsto> JStr ''Invalid GitHub URL'']))
      else
        (case e_mkdtemp ev of
           Inl e \<Rightarrow> Inl (clone_except w task_id e)
         | Inr temp_dir \<Rightarrow>
             (let repo_path = path_join temp_dir (repo_name url);
                  cmd = clone_cmd depth url repo_path
              in case e_spawn ev of
                   Inl e \<Rightarrow> Inl (clone_except w task_id e)
                 | Inr proc \<Rightarrow>
                     (let w = w\<lparr>spawned := spawned w @ [(proc, cmd)]\<rparr>;
                          w = w\<lparr>PROCS := (PROCS w)(task_id \<mapsto> proc)\<rparr>;
                          w = set_progress w task_id ''cloning'' 20 (Some [''stage'' \<mapsto> JStr ''clone''])
                      in Inr (w, proc, repo_path)))))"

text \<open>
  \<open>clone_finish\<close> is what follows the loop: the \<^verbatim>\<open>finally\<close> clause, the exit-code
  handling and the exception handlers.  The result is \<open>None\<close> when the environment's
  iterations end with the loop still running: the call has not returned.
\<close>

definition clone_finish :: "string \<Rightarrow> string \<Rightarrow> loop_exit \<Rightarrow> (world \<times> string) option" where
  "clone_finish task_id repo_path ex =
     (case ex of
        Running w \<Rightarrow> None
      | Returned w r \<Rightarrow> Some (PROCS_pop w task_id, r)
      | Raised w e \<Rightarrow> Some (clone_except (PROCS_pop w task_id) task_id e, [])
      | Broke w code \<Rightarrow>
          (let w = PROCS_pop w task_id in
           if code = 0 then
             Some (set_progress w task_id ''mapped'' 60 (Some [''stage'' \<mapsto> JStr ''map'']), repo_path)
           else
             Some (set_progress w task_id ''error'' 100
                     (Some [''message'' \<mapsto> JStr (''git clone failed: '' @ str_int code)]),
                   [])))"

definition interruptible_clone ::
  "world \<Rightarrow> string \<Rightarrow> string \<Rightarrow> int \<Rightarrow> int \<Rightarrow> env \<Rightarrow> (world \<times> string) option" where
  "interruptible_clone w task_id url max_seconds depth ev =
     (case clone_start w task_id url depth ev of
        Inl w' \<Rightarrow> Some (w', [])
      | Inr (w0, proc, repo_path) \<Rightarrow>
          clone_finish task_id repo_path
            (clone_loop task_id proc (e_start ev) max_seconds w0 (e_ticks ev)))"

section \<open>repo\_cache.py\<close>

definition CACHE_ROOT :: string where
  "CACHE_ROOT = ''outputs/cache''"

text \<open>
  \<^verbatim>\<open>url.encode("utf-8")\<close>: the bytes of the text, or \<^verbatim>\<open>UnicodeEncodeError\<close> when the text
  holds a lone surrogate.  The exception is a subclass of \<^verbatim>\<open>Exception\<close>; of its message
  (\<^verbatim>\<open>'utf-8' codec can't encode character ... : surrogates not allowed\<close>) the model keeps
  the reason.
\<close>

fun has_surrogate :: "string \<Rightarrow> bool" where
  "has_surrogate (c # d # s) =
     ((c = CHR 0xED \<and> 160 \<le> (of_char d :: nat) \<and> (of_char d :: nat) \<le> 191)
      \<or> has_surrogate (d # s))"
| "has_surrogate s = False"

definition encode_utf8 :: "string \<Rightarrow> exn + string" where
  "encode_utf8 s = (if has_surrogate s then Inl (Exception ''surrogates not allowed'') else Inr s)"

text \<open>
  \<open>sha1_hex8 bytes\<close> stands for \<^verbatim>\<open>hashlib.sha1(bytes).hexdigest()[:8]\<close>; the hash function
  is a parameter of everything that derives a cache key.  \<open>key\<close> has no handler of its
  own: what \<^verbatim>\<open>encode\<close> raises goes to the caller of \<open>key\<close> (\<open>Inl\<close>).
\<close>

definition key :: "(string \<Rightarrow> string) \<Rightarrow> string \<Rightarrow> exn + string" where
  "key sha1_hex8 url =
     (case encode_utf8 url of
        Inl e \<Rightarrow> Inl e
      | Inr bytes \<Rightarrow>
          (let h = sha1_hex8 bytes;
               name = strip_git (last_component (rstrip_slash url));
               safe = safe_chars name
           in Inr (safe @ ''-'' @ h)))"

text \<open>\<^verbatim>\<open>os.path.exists\<close>, \<^verbatim>\<open>os.path.isdir\<close> and \<^verbatim>\<open>os.path.exists(os.path.join(p, ".git"))\<close>.\<close>

definition path_exists :: "slot \<Rightarrow> bool" where
  "path_exists s = (s \<noteq> Missing)"

definition path_isdir :: "slot \<Rightarrow> bool" where
  "path_isdir s = (case s of Dir _ \<Rightarrow> True | _ \<Rightarrow> False)"

definition git_marker_exists :: "slot \<Rightarrow> bool" where
  "git_marker_exists s = (case s of Dir m \<Rightarrow> m | _ \<Rightarrow> False)"

text \<open>\<^verbatim>\<open>get_cached_path\<close> has no handler either: \<open>Inl\<close> is an exception it lets through.\<close>

definition get_cached_path :: "(string \<Rightarrow> string) \<Rightarrow> world \<Rightarrow> string \<Rightarrow> exn + string option" where
  "get_cached_path sha1_hex8 w url =
     (case key sha1_hex8 url of
        Inl e \<Rightarrow> Inl e
      | Inr k \<Rightarrow>
          (let p = path_join CACHE_ROOT k in
           if path_exists (cache w p) \<and> path_isdir (cache w p) \<and> git_marker_exists (cache w p)
           then Inr (Some p) else Inr None))"

text \<open>
  \<^verbatim>\<open>shutil.rmtree(p, ignore_errors=True)\<close>: a directory goes away unless an ignored error
  leaves something; a path that is not a directory is left as it is.
\<close>

definition rmtree :: "world \<Rightarrow> string \<Rightarrow> slot option \<Rightarrow> world" where
  "rmtree w p left =
     (case cache w p of
        Dir _ \<Rightarrow> w\<lparr>cache := (cache w)(p := (case left of None \<Rightarrow> Missing | Some s \<Rightarrow> s))\<rparr>
      | _ \<Rightarrow> w)"

text \<open>\<^verbatim>\<open>str.splitlines()\<close> on ASCII: the separators are LF, CR, CR LF, VT, FF, FS, GS and RS.\<close>

definition is_linebreak :: "char \<Rightarrow> bool" where
  "is_linebreak c = (let n = (of_char c :: nat) in (10 \<le> n \<and> n \<le> 13) \<or> (28 \<le> n \<and> n \<le> 30))"

fun splitlines_from :: "string \<Rightarrow> string \<Rightarrow> string list" where
  "splitlines_from cur [] = (if cur = [] then [] else [rev cur])"
| "splitlines_from cur [c] = (if is_linebreak c then [rev cur] else [rev (c # cur)])"
| "splitlines_from cur (c # d # s) =
     (if c = CHR 0x0D \<and> d = CHR 0x0A then rev cur # splitlines_from [] s
      else if is_linebreak c then rev cur # splitlines_from [] (d # s)
      else splitlines_from (c # cur) (d # s))"

definition splitlines :: "string \<Rightarrow> string list" where
  "splitlines s = splitlines_from [] s"

text \<open>\<^verbatim>\<open>xs[-5:]\<close>\<close>

definition last5 :: "'a list \<Rightarrow> 'a list" where
  "last5 xs = drop (length xs - 5) xs"

text \<open>The two handlers closing \<^verbatim>\<open>ensure_cached_repo\<close>.\<close>

definition cache_except :: "world \<Rightarrow> string \<Rightarrow> exn \<Rightarrow> world" where
  "cache_except w task_id e =
     (case e of
        FileNotFoundError \<Rightarrow>
          set_progress w task_id ''error'' 100
            (Some [''stage'' \<mapsto> JStr ''cache'', ''message'' \<mapsto> JStr ''git not found in PATH''])
      | Exception m \<Rightarrow>
          set_progress w task_id ''error'' 100
            (Some [''stage'' \<mapsto> JStr ''cache'', ''message'' \<mapsto> JStr m]))"

text \<open>The supervising loop of \<^verbatim>\<open>ensure_cached_repo\<close>: no progress parsing.\<close>

definition cache_iteration :: "string \<Rightarrow> nat \<Rightarrow> real \<Rightarrow> int \<Rightarrow> world \<Rightarrow> tick \<Rightarrow> loop_exit" where
  "cache_iteration task_id proc start timeout w0 t =
     (let w = apply_ext task_id (t_ext t) w0 in
      if is_canceled w task_id then
        Returned (terminate_kill (set_canceled w task_id ''Canceled during cache'') proc) []
      else if t_now t - start > of_int timeout then
        Returned (terminate_kill
          (set_progress w task_id ''timeout'' 100 (Some [''message'' \<mapsto> JStr ''Cache clone timed out'']))
          proc) []
      else
        (case t_read t of
           ReadRaises e \<Rightarrow> Raised w e
         | Readline line \<Rightarrow>
             if line = [] then
               (case t_poll t of Some code \<Rightarrow> Broke w code | None \<Rightarrow> Running w)
             else Running w))"

fun cache_loop :: "string \<Rightarrow> nat \<Rightarrow> real \<Rightarrow> int \<Rightarrow> world \<Rightarrow> tick list \<Rightarrow> loop_exit" where
  "cache_loop task_id proc start timeout w [] = Running w"
| "cache_loop task_id proc start timeout w (t # ts) =
     (case cache_iteration task_id proc start timeout w t of
        Running w' \<Rightarrow> cache_loop task_id proc start timeout w' ts
      | r \<Rightarrow> r)"

text \<open>
  The \<^verbatim>\<open>try\<close> block of \<^verbatim>\<open>ensure_cached_repo\<close>, in three parts like
  \<^verbatim>\<open>interruptible_clone\<close>.  \<open>cache_start\<close> clears the path, checks for the binary and
  spawns the child.  The child writes into \<open>cache_path\<close> while the loop runs and the
  function never looks at the path again, so the child's effect on it is applied at
  the spawn: \<open>e_child\<close> takes the state the clearing step has left at the path to the
  state the child leaves there.  Inside the \<^verbatim>\<open>try\<close> every exception is handled, so the
  block always returns a string (\<open>Inr\<close>).
\<close>

definition cache_start ::
  "world \<Rightarrow> string \<Rightarrow> string \<Rightarrow> string \<Rightarrow> int \<Rightarrow> env \<Rightarrow> world + (world \<times> nat)" where
  "cache_start w task_id url cache_path depth ev =
     (let w = (if path_exists (cache w cache_path) then rmtree w cache_path (e_rmtree_left ev) else w)
      in case e_makedirs ev of
           Some e \<Rightarrow> Inl (cache_except w task_id e)
         | None \<Rightarrow>
             if \<not> e_which_git ev then
               Inl (set_progress w task_id ''error'' 100
                      (Some [''stage'' \<mapsto> JStr ''cache'', ''message'' \<mapsto> JStr ''git not found in PATH'']))
             else
               (let cmd = clone_cmd depth url cache_path
                in case e_spawn ev of
                     Inl e \<Rightarrow> Inl (cache_except w task_id e)
                   | Inr proc \<Rightarrow>
                       (let w = w\<lparr>spawned := spawned w @ [(proc, cmd)],
                                  cache := (cache w)(cache_path := e_child ev (cache w cache_path))\<rparr>;
                            w = set_progress w task_id ''cache'' 15
                                  (Some [''stage'' \<mapsto> JStr ''cache'', ''action'' \<mapsto> JStr ''cloning''])
                        in Inr (w, proc))))"

definition cache_finish ::
  "string \<Rightarrow> string \<Rightarrow> env \<Rightarrow> loop_exit \<Rightarrow> (world \<times> (exn + string)) option" where
  "cache_finish task_id cache_path ev ex =
     (case ex of
        Running w \<Rightarrow> None
      | Returned w r \<Rightarrow> Some (w, Inr r)
      | Raised w e \<Rightarrow> Some (cache_except w task_id e, Inr [])
      | Broke w code \<Rightarrow>
          if code = 0 then
            Some (set_progress w task_id ''cache'' 25 (Some [''stage'' \<mapsto> JStr ''cache'']),
                  Inr cache_path)
          else
            (let err = (case e_communicate ev of Some e \<Rightarrow> e | None \<Rightarrow> [])
             in Some (set_progress w task_id ''error'' 100
                        (Some [''stage'' \<mapsto> JStr ''cache'',
                               ''message'' \<mapsto> JStr (''git clone failed: '' @ str_int code),
                               ''stderr'' \<mapsto> JList (map JStr (last5 (splitlines err)))]),
                      Inr [])))"

definition reclone ::
  "world \<Rightarrow> string \<Rightarrow> string \<Rightarrow> string \<Rightarrow> int \<Rightarrow> int \<Rightarrow> env
     \<Rightarrow> (world \<times> (exn + string)) option" where
  "reclone w task_id url cache_path timeout depth ev =
     (case cache_start w task_id url cache_path depth ev of
        Inl w' \<Rightarrow> Some (w', Inr [])
      | Inr (w0, proc) \<Rightarrow>
          cache_finish task_id cache_path ev
            (cache_loop task_id proc (e_start ev) timeout w0 (e_ticks ev)))"

text \<open>
  \<^verbatim>\<open>ensure_cached_repo\<close>.  The result is \<open>None\<close> when the call has not returned,
  \<open>Inr s\<close> when it returns the string \<open>s\<close> and \<open>Inl e\<close> when it raises \<open>e\<close> to its caller.
  The URL check comes first; the cache key is then computed, and the cache looked up,
  before the \<^verbatim>\<open>try\<close> block is entered, so an exception of \<open>key\<close> is not handled: the
  call raises it and has written nothing.
\<close>

definition ensure_cached_repo ::
  "(string \<Rightarrow> string) \<Rightarrow> world \<Rightarrow> string \<Rightarrow> string \<Rightarrow> bool \<Rightarrow> int \<Rightarrow> int \<Rightarrow> env
     \<Rightarrow> (world \<times> (exn + string)) option" where
  "ensure_cached_repo sha1_hex8 w task_id url refresh timeout depth ev =
     (if invalid_url url then
        Some (set_progress w task_id ''error'' 100
                (Some [''stage'' \<mapsto> JStr ''cache'', ''message'' \<mapsto> JStr ''Invalid GitHub URL'']),
              Inr [])
      else
        (case key sha1_hex8 url of
           Inl e \<Rightarrow> Some (w, Inl e)
         | Inr k \<Rightarrow>
             (let cache_path = path_join CACHE_ROOT k
              in case (if \<not> refresh then get_cached_path sha1_hex8 w url else Inr None) of
                   Inl e \<Rightarrow> Some (w, Inl e)
                 | Inr (Some p) \<Rightarrow>
                     if p \<noteq> [] then
                       Some (set_progress w task_id ''cache'' 25
                               (Some [''stage'' \<mapsto> JStr ''cache'', ''cached'' \<mapsto> JBool True]),
                             Inr p)
                     else reclone w task_id url cache_path timeout depth ev
                 | Inr None \<Rightarrow> reclone w task_id url cache_path timeout depth ev)))"

section \<open>Observations\<close>

text \<open>The world a loop run ends in.\<close>

definition exit_world :: "loop_exit \<Rightarrow> world" where
  "exit_world ex = (case ex of Running w \<Rightarrow> w | Returned w r \<Rightarrow> w | Broke w c \<Rightarrow> w | Raised w e \<Rightarrow> w)"

text \<open>The integer percents written to a task's progress file, oldest first.\<close>

definition percent_of :: "pydict \<Rightarrow> int option" where
  "percent_of d = (case d ''percent'' of Some (JInt n) \<Rightarrow> Some n | _ \<Rightarrow> None)"

definition percents_written :: "world \<Rightarrow> string \<Rightarrow> int list" where
  "percents_written w task_id =
     List.map_filter (\<lambda>(p, d). if p = path task_id then percent_of d else None) (progress_log w)"

text \<open>The same for the world a call returns; \<open>None\<close> when it has not returned.\<close>

definition percents_after :: "(world \<times> string) option \<Rightarrow> string \<Rightarrow> int list option" where
  "percents_after r task_id = map_option (\<lambda>(w, s). percents_written w task_id) r"

text \<open>The phase percents carried by the recognized progress lines of a run, in order.\<close>

definition line_percents :: "tick list \<Rightarrow> nat list" where
  "line_percents ticks =
     List.map_filter (\<lambda>t. case t_read t of Readline l \<Rightarrow> parse_progress l | ReadRaises e \<Rightarrow> None) ticks"

text \<open>
  What \<^verbatim>\<open>get_cached_path\<close> answers for a URL in the world a call ends in; \<open>None\<close> when
  the call has not ended.
\<close>

definition cached_path_after ::
  "(string \<Rightarrow> string) \<Rightarrow> string \<Rightarrow> (world \<times> 'a) option \<Rightarrow> (exn + string option) option" where
  "cached_path_after sha1_hex8 url r = map_option (\<lambda>(w, s). get_cached_path sha1_hex8 w url) r"

text \<open>The outcome of a call (its value, or the exception); \<open>None\<close> when it has not ended.\<close>

definition returned :: "(world \<times> 'a) option \<Rightarrow> 'a option" where
  "returned r = map_option snd r"

text \<open>The status of a task's record, and the number of processes spawned, after a call.\<close>

definition status_after :: "(world \<times> 'a) option \<Rightarrow> string \<Rightarrow> jval option option" where
  "status_after r task_id = map_option (\<lambda>(w, s). get_progress w task_id ''status'') r"

definition spawn_count :: "(world \<times> 'a) option \<Rightarrow> nat option" where
  "spawn_count r = map_option (\<lambda>(w, s). length (spawned w)) r"

text \<open>
  Two successive calls \<^verbatim>\<open>ensure_cached_repo(task_id, url, refresh=False)\<close>, the second in
  the world the first has left; \<open>None\<close> when one of them has not ended.  When the first
  call raises, the second is not made.
\<close>

definition ensure_twice ::
  "(string \<Rightarrow> string) \<Rightarrow> world \<Rightarrow> string \<Rightarrow> string \<Rightarrow> int \<Rightarrow> int \<Rightarrow> env \<Rightarrow> env
     \<Rightarrow> (world \<times> (exn + string)) option" where
  "ensure_twice sha1_hex8 w task_id url timeout depth ev ev2 =
     (case ensure_cached_repo sha1_hex8 w task_id url False timeout depth ev of
        None \<Rightarrow> None
      | Some (w1, Inl e) \<Rightarrow> Some (w1, Inl e)
      | Some (w1, Inr s) \<Rightarrow> ensure_cached_repo sha1_hex8 w1 task_id url False timeout depth ev2)"

text \<open>
  The wall-clock time from the spawn to the end of the last iteration the environment
  lets happen.
\<close>

definition elapsed_wall :: "env \<Rightarrow> real" where
  "elapsed_wall ev = (case e_ticks ev of [] \<Rightarrow> 0 | t # ts \<Rightarrow> t_after (last (t # ts)) - e_start ev)"

text \<open>The terminal error record: status \<^verbatim>\<open>error\<close>, percent 100, a message string.\<close>

definition error_published :: "world \<Rightarrow> string \<Rightarrow> bool" where
  "error_published w task_id =
     (get_progress w task_id ''status'' = Some (JStr ''error'')
      \<and> get_progress w task_id ''percent'' = Some (JInt 100)
      \<and> (case get_progress w task_id ''message'' of Some (JStr m) \<Rightarrow> True | _ \<Rightarrow> False))"

section \<open>Concrete inputs\<close>

text \<open>An empty installation: no files under \<^verbatim>\<open>outputs/\<close>, nothing running, a working disk.\<close>

definition world0 :: world where
  "world0 = \<lparr>progress_files = Map.empty, progress_log = [], jobs_json = None, unwritable = {},
     cache = (\<lambda>_. Missing), PROCS = Map.empty, spawned = [], killed = [],
     clock = \<lparr>dt_year = 2025, dt_month = 1, dt_day = 2, dt_hour = 3, dt_minute = 4, dt_second = 5\<rparr>\<rparr>"

text \<open>An installation that already holds a cloned directory at the cache path of \<open>widgets\<close>.\<close>

definition world_cached :: world where
  "world_cached = world0\<lparr>cache := (cache world0)(''outputs/cache/widgets-1d8341cf'' := Dir True)\<rparr>"

text \<open>A later clock reading, two URLs, and arguments for \<^verbatim>\<open>extra\<close> and \<^verbatim>\<open>details\<close>.\<close>

definition clock1 :: datetime where
  "clock1 = \<lparr>dt_year = 2025, dt_month = 1, dt_day = 2, dt_hour = 3, dt_minute = 9, dt_second = 30\<rparr>"

definition url_widgets :: string where
  "url_widgets = ''https://github.com/acme/widgets''"

definition url_gitlab :: string where
  "url_gitlab = ''https://gitlab.com/acme/widgets''"

definition extra_percent :: pydict where
  "extra_percent = [''percent'' \<mapsto> JInt 150]"

definition extra_stage :: pydict where
  "extra_stage = [''stage'' \<mapsto> JStr ''clone'']"

definition details_agent :: pydict where
  "details_agent = [''agent'' \<mapsto> JStr ''Planner'']"

text \<open>A stand-in for the first eight hex digits of SHA-1.\<close>

definition sha_stub :: "string \<Rightarrow> string" where
  "sha_stub url = ''1d8341cf''"

text \<open>
  Loop iterations without interference: a line read at a given time (the lines below
  end with the newline that \<^verbatim>\<open>readline\<close> keeps), and the end of the child.
\<close>

definition tick_line :: "real \<Rightarrow> string \<Rightarrow> tick" where
  "tick_line tnow l =
     \<lparr>t_ext = None, t_now = tnow, t_read = Readline l, t_poll = None, t_after = tnow\<rparr>"

definition tick_exit :: "real \<Rightarrow> int \<Rightarrow> tick" where
  "tick_exit tnow code =
     \<lparr>t_ext = None, t_now = tnow, t_read = Readline [], t_poll = Some code, t_after = tnow\<rparr>"

text \<open>
  A child process as far as its target path goes: where it finds nothing it leaves
  \<open>made\<close>, and a path that exists it leaves as it is.
\<close>

definition git_child :: "slot \<Rightarrow> slot \<Rightarrow> slot" where
  "git_child made found = (case found of Missing \<Rightarrow> made | NotDir \<Rightarrow> NotDir | Dir m \<Rightarrow> Dir m)"

definition ticks_two :: "tick list" where
  "ticks_two = [tick_line 1 ''Receiving objects:  10% (1/10)\<newline>'',
                tick_line 2 ''Receiving objects:  20% (2/10)\<newline>'']"

text \<open>A run in which the child prints one progress line and is then found 181 s old.\<close>

definition env_timeout :: env where
  "env_timeout = \<lparr>e_mkdtemp = Inr ''/tmp/tmpab12'', e_rmtree_left = None, e_makedirs = None,
     e_which_git = True, e_spawn = Inr 4242, e_start = 0,
     e_ticks = [tick_line 1 ''Receiving objects:  10% (1/10)\<newline>'', tick_line 181 ''Receiving objects:  20% (2/10)\<newline>''],
     e_child = git_child (Dir True), e_communicate = Some []\<rparr>"

text \<open>Runs in which the child prints one progress line and then ends with code 0 or 128.\<close>

definition env_exit :: "int \<Rightarrow> env" where
  "env_exit code = \<lparr>e_mkdtemp = Inr ''/tmp/tmpab12'', e_rmtree_left = None, e_makedirs = None,
     e_which_git = True, e_spawn = Inr 4242, e_start = 0,
     e_ticks = [tick_line 1 ''Receiving objects:  10% (1/10)\<newline>'', tick_exit 2 code],
     e_child = git_child (if code = 0 then Dir True else Missing), e_communicate = Some []\<rparr>"

text \<open>A clone that receives all objects, starts resolving deltas and ends with code 0.\<close>

definition env_phases :: env where
  "env_phases = \<lparr>e_mkdtemp = Inr ''/tmp/tmpab12'', e_rmtree_left = None, e_makedirs = None,
     e_which_git = True, e_spawn = Inr 4242, e_start = 0,
     e_ticks = [tick_line 1 ''Receiving objects: 100% (10/10), done.\<newline>'',
                tick_line 2 ''Resolving deltas:   0% (0/3)\<newline>'',
                tick_exit 3 0],
     e_child = git_child (Dir True), e_communicate = Some []\<rparr>"

text \<open>An environment without the \<^verbatim>\<open>git\<close> binary.\<close>

definition env_nogit :: env where
  "env_nogit = \<lparr>e_mkdtemp = Inr ''/tmp/tmpab12'', e_rmtree_left = None, e_makedirs = None,
     e_which_git = False, e_spawn = Inl FileNotFoundError, e_start = 0,
     e_ticks = [], e_child = git_child Missing, e_communicate = None\<rparr>"

text \<open>A run in which reading the child's output raises at the first iteration.\<close>

definition env_raise :: env where
  "env_raise = \<lparr>e_mkdtemp = Inr ''/tmp/tmpab12'', e_rmtree_left = None, e_makedirs = None,
     e_which_git = True, e_spawn = Inr 4242, e_start = 0,
     e_ticks = [\<lparr>t_ext = None, t_now = 1,
                 t_read = ReadRaises (Exception ''invalid start byte''), t_poll = None,
                 t_after = 1\<rparr>],
     e_child = git_child (Dir False), e_communicate = None\<rparr>"

text \<open>
  A run in which the child writes nothing for 600 s and then ends with the given code:
  the first \<^verbatim>\<open>readline()\<close>, entered right after the spawn, returns the end of file 600 s
  later.
\<close>

definition env_stall :: "int \<Rightarrow> env" where
  "env_stall code = \<lparr>e_mkdtemp = Inr ''/tmp/tmpab12'', e_rmtree_left = None, e_makedirs = None,
     e_which_git = True, e_spawn = Inr 4242, e_start = 0,
     e_ticks = [\<lparr>t_ext = None, t_now = 0, t_read = Readline [], t_poll = Some code,
                 t_after = 600\<rparr>],
     e_child = git_child (if code = 0 then Dir True else Missing), e_communicate = Some []\<rparr>"

text \<open>
  A URL that passes the check for the hosting domain and ends with the lone surrogate
  \<^verbatim>\<open>U+DC80\<close> (in Python, \<^verbatim>\<open>"https://github.com/acme/" + chr(0xDC80)\<close>).
\<close>

definition url_surrogate :: string where
  "url_surrogate = ''https://github.com/acme/'' @ [CHR 0xED, CHR 0xB2, CHR 0x80]"

section \<open>The progress store\<close>

lemma write_progress_frame [simp]:
  "unwritable (write_progress w p d) = unwritable w"
  "cache (write_progress w p d) = cache w"
  "spawned (write_progress w p d) = spawned w"
  "jobs_json (write_progress w p d) = jobs_json w"
  "PROCS (write_progress w p d) = PROCS w"
  "killed (write_progress w p d) = killed w"
  "clock (write_progress w p d) = clock w"
  by (simp_all add: write_progress_def)

lemma set_progress_frame [simp]:
  "unwritable (set_progress w i s p x) = unwritable w"
  "cache (set_progress w i s p x) = cache w"
  "spawned (set_progress w i s p x) = spawned w"
  "jobs_json (set_progress w i s p x) = jobs_json w"
  "PROCS (set_progress w i s p x) = PROCS w"
  "killed (set_progress w i s p x) = killed w"
  "clock (set_progress w i s p x) = clock w"
  by (simp_all add: set_progress_def Let_def)

lemma set_canceled_frame [simp]:
  "unwritable (set_canceled w i m) = unwritable w"
  "cache (set_canceled w i m) = cache w"
  "spawned (set_canceled w i m) = spawned w"
  "jobs_json (set_canceled w i m) = jobs_json w"
  "PROCS (set_canceled w i m) = PROCS w"
  "killed (set_canceled w i m) = killed w"
  "clock (set_canceled w i m) = clock w"
  by (simp_all add: set_canceled_def Let_def)

lemma infer_from_jobs_cong:
  "jobs_json w' = jobs_json w \<Longrightarrow> infer_from_jobs w' i = infer_from_jobs w i"
  unfolding infer_from_jobs_def get_jobs_def load_def by simp

lemma get_progress_cong:
  "progress_files w' = progress_files w \<Longrightarrow> jobs_json w' = jobs_json w
     \<Longrightarrow> get_progress w' i = get_progress w i"
  unfolding get_progress_def by (simp add: infer_from_jobs_cong [of w' w] cong: option.case_cong)

lemma get_progress_write:
  "path i \<notin> unwritable w \<Longrightarrow> get_progress (write_progress w (path i) d) i = d"
  by (simp add: get_progress_def write_progress_def)

lemma get_progress_set_progress:
  "path i \<notin> unwritable w \<Longrightarrow>
   get_progress (set_progress w i s p x) i =
     update_extra (get_progress w i ++ [''task_id'' \<mapsto> JStr i, ''status'' \<mapsto> JStr s,
                     ''percent'' \<mapsto> JInt (max 0 (min 100 p))]) x"
  by (simp add: set_progress_def Let_def get_progress_write)

lemma get_progress_set_canceled:
  "path i \<notin> unwritable w \<Longrightarrow>
   get_progress (set_canceled w i m) i =
     (let data = get_progress w i;
          data = data ++ [''status'' \<mapsto> JStr ''canceled'',
                          ''percent'' \<mapsto> (case data ''percent'' of None \<Rightarrow> JInt 0 | Some v \<Rightarrow> v),
                          ''canceled'' \<mapsto> JBool True]
      in if m \<noteq> [] then data(''message'' \<mapsto> JStr m) else data)"
  by (simp add: set_canceled_def Let_def get_progress_write)

lemma update_extra_apply:
  "update_extra d (Some e) k = (case e k of Some v \<Rightarrow> Some v | None \<Rightarrow> d k)"
  by (simp add: update_extra_def map_add_def)

lemma status_after_set_progress:
  "path i \<notin> unwritable w \<Longrightarrow> e ''status'' = None \<Longrightarrow>
   get_progress (set_progress w i s p (Some e)) i ''status'' = Some (JStr s)"
  by (simp add: get_progress_set_progress update_extra_apply)

lemma percent_after_set_progress:
  "path i \<notin> unwritable w \<Longrightarrow> e ''percent'' = None \<Longrightarrow>
   get_progress (set_progress w i s p (Some e)) i ''percent'' = Some (JInt (max 0 (min 100 p)))"
  by (simp add: get_progress_set_progress update_extra_apply)

lemma extra_after_set_progress:
  "path i \<notin> unwritable w \<Longrightarrow> e k = Some v \<Longrightarrow>
   get_progress (set_progress w i s p (Some e)) i k = Some v"
  by (simp add: get_progress_set_progress update_extra_apply)

lemma is_canceled_set_progress:
  "e ''canceled'' = None \<Longrightarrow> is_canceled (set_progress w i s p (Some e)) i = is_canceled w i"
proof (cases "path i \<in> unwritable w")
  case True
  then show ?thesis by (simp add: set_progress_def write_progress_def Let_def)
next
  case False
  assume "e ''canceled'' = None"
  with False show ?thesis
    by (simp add: is_canceled_def get_progress_set_progress update_extra_apply)
qed

lemma is_canceled_set_canceled:
  "path i \<notin> unwritable w \<Longrightarrow> is_canceled (set_canceled w i m) i"
  by (simp add: is_canceled_def get_progress_set_canceled Let_def truthy_opt_def)

lemma is_canceled_set_canceled_keeps:
  "is_canceled w i \<Longrightarrow> is_canceled (set_canceled w i m) i"
  by (cases "path i \<in> unwritable w")
     (simp_all add: is_canceled_set_canceled, simp add: set_canceled_def write_progress_def Let_def)

lemma path_t1: "path ''t1'' = ''outputs/progress/t1.json''"
  by (simp add: path_def safe_chars_def is_alnum_def path_join_def BASE_DIR_def)

text \<open>
  C5.  After \<^verbatim>\<open>set_progress(id, s, p, e)\<close> the record read back by \<^verbatim>\<open>get_progress(id)\<close>
  has percent \<open>clamp(p, 0, 100)\<close> and holds every key of \<open>e\<close>, provided \<open>e\<close> has no
  \<^verbatim>\<open>percent\<close> key of its own and the progress file can be written.
\<close>

theorem set_progress_then_get:
  assumes "path task_id \<notin> unwritable w" and "e ''percent'' = None"
  shows "get_progress (set_progress w task_id status percent (Some e)) task_id ''percent''
           = Some (JInt (max 0 (min 100 percent)))
       \<and> dom e \<subseteq> dom (get_progress (set_progress w task_id status percent (Some e)) task_id)"
  using assms
  by (auto simp: get_progress_set_progress update_extra_apply)

theorem set_progress_then_get_witness:
  "get_progress (set_progress world0 ''t1'' ''cloning'' 250 (Some extra_stage)) ''t1'' ''percent''
           = Some (JInt 100)
   \<and> dom extra_stage \<subseteq> dom (get_progress (set_progress world0 ''t1'' ''cloning'' 250 (Some extra_stage)) ''t1'')"
  using set_progress_then_get [of "''t1''" world0 extra_stage "''cloning''" 250]
  by (simp add: path_t1 world0_def extra_stage_def)

text \<open>
  C5 as stated fails: \<^verbatim>\<open>extra\<close> is merged after the clamped percent, so a \<^verbatim>\<open>percent\<close> key
  in it wins.  \<^verbatim>\<open>set_progress("t1", "cloning", 50, {"percent": 150})\<close> stores 150, not 50.
\<close>

theorem set_progress_extra_percent_counterexample:
  "get_progress (set_progress world0 ''t1'' ''cloning'' 50 (Some extra_percent)) ''t1'' ''percent''
     = Some (JInt 150)
   \<and> JInt 150 \<noteq> JInt (max 0 (min 100 50))"
  by (simp add: get_progress_set_progress update_extra_apply path_t1 world0_def extra_percent_def)

section \<open>The job ledger\<close>

lemma isoformat_nonempty: "isoformat d \<noteq> []"
  by (simp add: isoformat_def)

lemma save_frame [simp]:
  "unwritable (save w js) = unwritable w"
  by (simp add: save_def)

lemma load_save: "REG_PATH \<notin> unwritable w \<Longrightarrow> load (save w js) = js"
  by (simp add: load_def save_def)

lemma update_first_fresh:
  "\<forall>j \<in> set js. j_id j \<noteq> i \<Longrightarrow> j_id j0 = i \<Longrightarrow>
   update_first i f (js @ [j0]) = js @ [f j0]"
  by (induction js) auto

lemma update_first_find:
  "(\<And>j. j_id (f j) = j_id j) \<Longrightarrow>
   find (\<lambda>j. j_id j = i) (update_first i f js) = map_option f (find (\<lambda>j. j_id j = i) js)"
  by (induction js) auto

lemma merge_details_fields [simp]:
  "j_id (merge_details details j) = j_id j"
  "j_history (merge_details details j) = j_history j"
  "j_ended_at (merge_details details j) = j_ended_at j"
  "j_status (merge_details details j) = j_status j"
  by (simp_all add: merge_details_def Let_def split: option.splits)

lemma merge_details_agent:
  "j_agent (merge_details details j) =
     (case details of
        None \<Rightarrow> j_agent j
      | Some ds \<Rightarrow> (case ds ''agent'' of None \<Rightarrow> j_agent j | Some v \<Rightarrow> v))"
  by (simp add: merge_details_def Let_def split: option.splits)

lemma j_id_update_record [simp]: "j_id (update_record ts status details j) = j_id j"
  by (cases "mapped_agent (lower status)") (simp_all add: update_record_def Let_def)

lemma history_update_record:
  "j_history (update_record ts status details j) = j_history j @ [(ts, status)]"
  by (cases "mapped_agent (lower status)") (simp_all add: update_record_def Let_def)

lemma agent_update_record:
  "j_agent (update_record ts status details j) =
     (case mapped_agent (lower status) of
        Some a \<Rightarrow> JStr a
      | None \<Rightarrow> (case details of
                   None \<Rightarrow> j_agent j
                 | Some ds \<Rightarrow> (case ds ''agent'' of None \<Rightarrow> j_agent j | Some v \<Rightarrow> v)))"
  by (cases "mapped_agent (lower status)") (simp_all add: update_record_def Let_def merge_details_agent cong: option.case_cong)

lemma details_agent_update_record:
  "mapped_agent (lower status) = Some a \<Longrightarrow>
   j_details (update_record ts status details j) ''agent'' = Some (JStr a)"
  by (simp add: update_record_def Let_def)

lemma ended_update_record:
  "j_ended_at (update_record ts status details j) =
     (if status \<in> {''completed'', ''canceled'', ''error'', ''timeout''} then ts else j_ended_at j)"
  by (cases "mapped_agent (lower status)") (simp_all add: update_record_def Let_def)

lemma lower_completed: "lower ''completed'' = ''completed''"
  by (simp add: lower_def lower_char_def)

lemma get_jobs_create:
  "REG_PATH \<notin> unwritable w \<Longrightarrow>
   get_jobs (create_job w i url) =
     filter (\<lambda>j. j_id j \<noteq> i) (get_jobs w) @
       [\<lparr>j_id = i, j_repo_url = url, j_status = ''pending'', j_agent = JStr ''CodeAnalyzer'',
         j_priority = JStr ''medium'', j_date = now w, j_created_at = now w, j_updated_at = now w,
         j_ended_at = [], j_details = [''stage'' \<mapsto> JStr ''start''],
         j_history = [(now w, ''pending'')]\<rparr>]"
  by (simp add: create_job_def get_jobs_def load_save Let_def)

lemma get_jobs_clock [simp]: "get_jobs (w\<lparr>clock := c\<rparr>) = get_jobs w"
  by (simp add: get_jobs_def load_def)

lemma get_jobs_update:
  "REG_PATH \<notin> unwritable w \<Longrightarrow>
   get_jobs (update_job w i status details) =
     update_first i (update_record (now w) status details) (get_jobs w)"
  by (simp add: update_job_def get_jobs_def load_save Let_def)

text \<open>
  C7.  \<^verbatim>\<open>create_job(id, url)\<close> leaves exactly one record for \<open>id\<close>: status pending,
  agent \<^verbatim>\<open>CodeAnalyzer\<close>, empty \<^verbatim>\<open>ended_at\<close>, a history of one entry (pending); any
  earlier record with the id is gone.  After \<^verbatim>\<open>update_job(id, "completed", {})\<close>, at
  whatever time \<open>c\<close> it runs, the record for \<open>id\<close> has agent \<^verbatim>\<open>DocGenerator\<close>, a non-empty
  \<^verbatim>\<open>ended_at\<close> and a history of exactly two entries, pending then completed.  The
  ledger file is assumed writable.
\<close>

theorem create_then_complete:
  assumes "REG_PATH \<notin> unwritable w"
  shows "\<exists>j0 j.
      filter (\<lambda>j. j_id j = task_id) (get_jobs (create_job w task_id url)) = [j0]
    \<and> j_status j0 = ''pending'' \<and> j_agent j0 = JStr ''CodeAnalyzer'' \<and> j_ended_at j0 = []
    \<and> map snd (j_history j0) = [''pending'']
    \<and> filter (\<lambda>j. j_id j = task_id)
         (get_jobs (update_job ((create_job w task_id url)\<lparr>clock := c\<rparr>) task_id ''completed''
            (Some Map.empty))) = [j]
    \<and> j_agent j = JStr ''DocGenerator'' \<and> j_ended_at j \<noteq> []
    \<and> length (j_history j) = 2 \<and> map snd (j_history j) = [''pending'', ''completed'']"
proof -
  let ?new = "\<lparr>j_id = task_id, j_repo_url = url, j_status = ''pending'', j_agent = JStr ''CodeAnalyzer'',
         j_priority = JStr ''medium'', j_date = now w, j_created_at = now w, j_updated_at = now w,
         j_ended_at = [], j_details = [''stage'' \<mapsto> JStr ''start''],
         j_history = [(now w, ''pending'')]\<rparr>"
  let ?rest = "filter (\<lambda>j. j_id j \<noteq> task_id) (get_jobs w)"
  let ?w1 = "create_job w task_id url"
  let ?ts = "now (?w1\<lparr>clock := c\<rparr>)"
  let ?j = "update_record ?ts ''completed'' (Some Map.empty) ?new"
  have c: "get_jobs ?w1 = ?rest @ [?new]"
    using assms by (rule get_jobs_create)
  have w1: "REG_PATH \<notin> unwritable (?w1\<lparr>clock := c\<rparr>)"
    using assms by (simp add: create_job_def Let_def)
  have fresh: "\<forall>j \<in> set ?rest. j_id j \<noteq> task_id" by simp
  have u: "get_jobs (update_job (?w1\<lparr>clock := c\<rparr>) task_id ''completed'' (Some Map.empty))
             = ?rest @ [?j]"
    using get_jobs_update [OF w1] c update_first_fresh [OF fresh, of ?new] by simp
  have f0: "filter (\<lambda>j. j_id j = task_id) (?rest @ [?new]) = [?new]"
    by (simp add: filter_empty_conv)
  have f1: "filter (\<lambda>j. j_id j = task_id) (?rest @ [?j]) = [?j]"
    by (simp add: filter_empty_conv)
  have ts: "?ts \<noteq> []" by (simp add: now_def isoformat_nonempty)
  have a: "j_agent ?j = JStr ''DocGenerator''"
    by (simp add: agent_update_record lower_completed mapped_agent_def)
  have e: "j_ended_at ?j \<noteq> []"
    using ts by (simp add: ended_update_record)
  have h: "j_history ?j = [(now w, ''pending''), (?ts, ''completed'')]"
    by (simp add: history_update_record)
  show ?thesis
    apply (rule exI [of _ ?new], rule exI [of _ ?j])
    using c u f0 f1 a e h by simp
qed


theorem create_then_complete_witness:
  "REG_PATH \<notin> unwritable world0 \<and>
   (\<exists>j0 j.
      filter (\<lambda>j. j_id j = ''job1'') (get_jobs (create_job world0 ''job1'' url_widgets)) = [j0]
    \<and> j_status j0 = ''pending'' \<and> j_agent j0 = JStr ''CodeAnalyzer'' \<and> j_ended_at j0 = []
    \<and> map snd (j_history j0) = [''pending'']
    \<and> filter (\<lambda>j. j_id j = ''job1'')
         (get_jobs (update_job ((create_job world0 ''job1'' url_widgets)\<lparr>clock := clock1\<rparr>) ''job1'' ''completed''
            (Some Map.empty))) = [j]
    \<and> j_agent j = JStr ''DocGenerator'' \<and> j_ended_at j \<noteq> []
    \<and> length (j_history j) = 2 \<and> map snd (j_history j) = [''pending'', ''completed''])"
  using create_then_complete [of world0 "''job1''" url_widgets clock1]
  by (simp add: world0_def REG_PATH_def)

lemma find_get_jobs_update:
  assumes "REG_PATH \<notin> unwritable w"
  shows "find (\<lambda>j. j_id j = i) (get_jobs (update_job w i status details)) =
           map_option (update_record (now w) status details) (find (\<lambda>j. j_id j = i) (get_jobs w))"
  using assms by (simp add: get_jobs_update update_first_find)

text \<open>
  C8.  For the first record with the given id, \<^verbatim>\<open>update_job(id, status, details)\<close> sets
  the agent from the lower-cased status through the fixed table whenever the status
  is in the table, whatever \<^verbatim>\<open>details\<close> holds.  For a status outside the table the
  agent is the one \<^verbatim>\<open>details\<close> supplies, or stays as it was when \<^verbatim>\<open>details\<close> supplies
  none.  The ledger file is assumed writable.
\<close>

theorem update_job_agent:
  assumes "REG_PATH \<notin> unwritable w"
      and "find (\<lambda>j. j_id j = task_id) (get_jobs w) = Some j"
  shows "map_option j_agent
           (find (\<lambda>j. j_id j = task_id) (get_jobs (update_job w task_id status details))) =
         Some (case mapped_agent (lower status) of
                 Some a \<Rightarrow> JStr a
               | None \<Rightarrow> (case details of
                            None \<Rightarrow> j_agent j
                          | Some ds \<Rightarrow> (case ds ''agent'' of None \<Rightarrow> j_agent j | Some v \<Rightarrow> v)))"
  using assms by (simp add: find_get_jobs_update agent_update_record)

lemma get_jobs_job1:
  "get_jobs (create_job world0 ''job1'' url_widgets) =
     [\<lparr>j_id = ''job1'', j_repo_url = url_widgets, j_status = ''pending'', j_agent = JStr ''CodeAnalyzer'',
       j_priority = JStr ''medium'', j_date = now world0, j_created_at = now world0,
       j_updated_at = now world0, j_ended_at = [], j_details = [''stage'' \<mapsto> JStr ''start''],
       j_history = [(now world0, ''pending'')]\<rparr>]"
proof -
  have "REG_PATH \<notin> unwritable world0" by (simp add: world0_def)
  moreover have "get_jobs world0 = []" by (simp add: get_jobs_def load_def world0_def)
  ultimately show ?thesis by (simp add: get_jobs_create)
qed

lemma unwritable_job1: "REG_PATH \<notin> unwritable (create_job world0 ''job1'' url_widgets)"
  by (simp add: create_job_def Let_def world0_def)

lemma lower_error: "lower ''ERROR'' = ''error''"
  by (simp add: lower_def lower_char_def)

lemma lower_done: "lower ''done'' = ''done''"
  by (simp add: lower_def lower_char_def)

theorem update_job_agent_witness:
  "map_option j_agent
     (find (\<lambda>j. j_id j = ''job1'')
        (get_jobs (update_job (create_job world0 ''job1'' url_widgets) ''job1'' ''ERROR'' (Some details_agent))))
   = Some (JStr ''Supervisor'')"
  using update_job_agent [OF unwritable_job1, of "''job1''" _ "''ERROR''" "Some details_agent"]
  by (simp add: get_jobs_job1 lower_error mapped_agent_def)

text \<open>
  C8 as stated fails for a status outside the table: with status \<^verbatim>\<open>done\<close> (a job status
  that \<^verbatim>\<open>progress.py\<close> itself expects) the caller's agent survives, and without
  \<^verbatim>\<open>details\<close> the old agent stays, so the agent is not a function of the status alone.
\<close>

theorem update_job_agent_counterexample:
  "map j_agent (get_jobs (update_job (create_job world0 ''job1'' url_widgets) ''job1'' ''done''
                  (Some details_agent))) = [JStr ''Planner'']
   \<and> map j_agent (get_jobs (update_job (create_job world0 ''job1'' url_widgets) ''job1'' ''done''
                  None)) = [JStr ''CodeAnalyzer'']"
  by (simp add: get_jobs_update [OF unwritable_job1] get_jobs_job1 agent_update_record lower_done
      mapped_agent_def details_agent_def)

section \<open>The supervising loop\<close>

lemma exit_world_simps [simp]:
  "exit_world (Running w) = w"
  "exit_world (Returned w r) = w"
  "exit_world (Broke w c) = w"
  "exit_world (Raised w e) = w"
  by (simp_all add: exit_world_def)

lemma terminate_kill_frame [simp]:
  "unwritable (terminate_kill w p) = unwritable w"
  "cache (terminate_kill w p) = cache w"
  "spawned (terminate_kill w p) = spawned w"
  "jobs_json (terminate_kill w p) = jobs_json w"
  "progress_files (terminate_kill w p) = progress_files w"
  "progress_log (terminate_kill w p) = progress_log w"
  "PROCS (terminate_kill w p) = PROCS w"
  by (simp_all add: terminate_kill_def)

lemma PROCS_pop_frame [simp]:
  "unwritable (PROCS_pop w i) = unwritable w"
  "cache (PROCS_pop w i) = cache w"
  "spawned (PROCS_pop w i) = spawned w"
  "jobs_json (PROCS_pop w i) = jobs_json w"
  "progress_files (PROCS_pop w i) = progress_files w"
  "progress_log (PROCS_pop w i) = progress_log w"
  by (simp_all add: PROCS_pop_def)

lemma clear_progress_frame [simp]:
  "unwritable (clear_progress w i) = unwritable w"
  "cache (clear_progress w i) = cache w"
  "spawned (clear_progress w i) = spawned w"
  "jobs_json (clear_progress w i) = jobs_json w"
  "PROCS (clear_progress w i) = PROCS w"
  by (simp_all add: clear_progress_def)

lemma get_progress_terminate_kill [simp]:
  "get_progress (terminate_kill w p) i = get_progress w i"
  by (rule get_progress_cong) simp_all

lemma get_progress_PROCS_pop [simp]:
  "get_progress (PROCS_pop w j) i = get_progress w i"
  by (rule get_progress_cong) simp_all

lemma is_canceled_terminate_kill [simp]:
  "is_canceled (terminate_kill w p) i = is_canceled w i"
  by (simp add: is_canceled_def)

lemma is_canceled_PROCS_pop [simp]:
  "is_canceled (PROCS_pop w j) i = is_canceled w i"
  by (simp add: is_canceled_def)

lemma cancel_clone_frame [simp]:
  "unwritable (fst (cancel_clone w i)) = unwritable w"
  "cache (fst (cancel_clone w i)) = cache w"
  "spawned (fst (cancel_clone w i)) = spawned w"
  "jobs_json (fst (cancel_clone w i)) = jobs_json w"
  by (simp_all add: cancel_clone_def Let_def split: option.splits)

lemma apply_ext_frame [simp]:
  "unwritable (apply_ext i x w) = unwritable w"
  "cache (apply_ext i x w) = cache w"
  "spawned (apply_ext i x w) = spawned w"
  "jobs_json (apply_ext i x w) = jobs_json w"
  by (simp_all add: apply_ext_def split: option.splits ext.splits)

lemma clone_iteration_frame [simp]:
  "unwritable (exit_world (clone_iteration i pr st mx w t)) = unwritable w"
  "cache (exit_world (clone_iteration i pr st mx w t)) = cache w"
  "spawned (exit_world (clone_iteration i pr st mx w t)) = spawned w"
  "jobs_json (exit_world (clone_iteration i pr st mx w t)) = jobs_json w"
  by (simp_all add: clone_iteration_def Let_def split: read_result.splits option.splits)

lemma clone_loop_frame [simp]:
  "unwritable (exit_world (clone_loop i pr st mx w ts)) = unwritable w"
  "cache (exit_world (clone_loop i pr st mx w ts)) = cache w"
  "spawned (exit_world (clone_loop i pr st mx w ts)) = spawned w"
  "jobs_json (exit_world (clone_loop i pr st mx w ts)) = jobs_json w"
proof (induction ts arbitrary: w)
  case Nil
  { case 1 show ?case by simp next
    case 2 show ?case by simp next
    case 3 show ?case by simp next
    case 4 show ?case by simp }
next
  case (Cons t ts)
  { case 1
    show ?case using Cons.IH(1) [of "exit_world (clone_iteration i pr st mx w t)"]
        clone_iteration_frame(1) [of i pr st mx w t]
      by (cases "clone_iteration i pr st mx w t") simp_all
  next
    case 2
    show ?case using Cons.IH(2) [of "exit_world (clone_iteration i pr st mx w t)"]
        clone_iteration_frame(2) [of i pr st mx w t]
      by (cases "clone_iteration i pr st mx w t") simp_all
  next
    case 3
    show ?case using Cons.IH(3) [of "exit_world (clone_iteration i pr st mx w t)"]
        clone_iteration_frame(3) [of i pr st mx w t]
      by (cases "clone_iteration i pr st mx w t") simp_all
  next
    case 4
    show ?case using Cons.IH(4) [of "exit_world (clone_iteration i pr st mx w t)"]
        clone_iteration_frame(4) [of i pr st mx w t]
      by (cases "clone_iteration i pr st mx w t") simp_all }
qed

lemma clone_loop_append:
  "clone_loop i pr st mx w (xs @ ys) =
     (case clone_loop i pr st mx w xs of
        Running w' \<Rightarrow> clone_loop i pr st mx w' ys
      | r \<Rightarrow> r)"
  by (induction xs arbitrary: w) (simp_all split: loop_exit.splits)

lemma clone_start_unwritable:
  "clone_start w i url depth ev = Inr (w0, pr, rp) \<Longrightarrow> unwritable w0 = unwritable w"
  by (auto simp: clone_start_def Let_def split: if_splits sum.splits)


lemma clone_start_ok:
  "\<not> invalid_url url \<Longrightarrow> e_mkdtemp ev = Inr tmp \<Longrightarrow> e_spawn ev = Inr pr \<Longrightarrow>
   clone_start w i url depth ev =
     Inr (set_progress
            (w\<lparr>spawned := spawned w @ [(pr, clone_cmd depth url (path_join tmp (repo_name url)))],
               PROCS := (PROCS w)(i \<mapsto> pr)\<rparr>)
            i ''cloning'' 20 (Some [''stage'' \<mapsto> JStr ''clone'']),
          pr, path_join tmp (repo_name url))"
  by (simp add: clone_start_def Let_def)

lemma is_canceled_cong:
  "progress_files w' = progress_files w \<Longrightarrow> jobs_json w' = jobs_json w
     \<Longrightarrow> is_canceled w' i = is_canceled w i"
  using get_progress_cong [of w' w i] by (simp add: is_canceled_def)

lemma is_canceled_clone_start:
  assumes "clone_start w i url depth ev = Inr (w0, pr, rp)"
  shows "is_canceled w0 i = is_canceled w i"
proof -
  obtain tmp p where tmp: "e_mkdtemp ev = Inr tmp" and p: "e_spawn ev = Inr p" and v: "\<not> invalid_url url"
    using assms by (auto simp: clone_start_def Let_def split: if_splits sum.splits)
  from clone_start_ok [OF v tmp p, of w i depth] assms
  have "w0 = set_progress
            (w\<lparr>spawned := spawned w @ [(p, clone_cmd depth url (path_join tmp (repo_name url)))],
               PROCS := (PROCS w)(i \<mapsto> p)\<rparr>)
            i ''cloning'' 20 (Some [''stage'' \<mapsto> JStr ''clone''])" by simp
  moreover have "is_canceled
            (w\<lparr>spawned := spawned w @ [(p, clone_cmd depth url (path_join tmp (repo_name url)))],
               PROCS := (PROCS w)(i \<mapsto> p)\<rparr>) i = is_canceled w i"
    by (rule is_canceled_cong) simp_all
  ultimately show ?thesis
    by (simp add: is_canceled_set_progress)
qed

lemma clone_iteration_canceled:
  "is_canceled (apply_ext i (t_ext t) w) i \<Longrightarrow>
   clone_iteration i pr st mx w t =
     Returned (terminate_kill (set_canceled (apply_ext i (t_ext t) w) i ''Canceled by user'') pr) []"
  by (simp add: clone_iteration_def Let_def)

lemma clone_iteration_timeout:
  "\<not> is_canceled (apply_ext i (t_ext t) w) i \<Longrightarrow> t_now t - st > of_int mx \<Longrightarrow>
   clone_iteration i pr st mx w t =
     Returned (terminate_kill
       (set_progress (apply_ext i (t_ext t) w) i ''timeout'' 100
          (Some [''message'' \<mapsto> JStr ''Clone timed out''])) pr) []"
  by (simp add: clone_iteration_def Let_def)

lemma interruptible_clone_started:
  "clone_start w i url depth ev = Inr (w0, pr, rp) \<Longrightarrow>
   interruptible_clone w i url mx depth ev =
     clone_finish i rp (clone_loop i pr (e_start ev) mx w0 (e_ticks ev))"
  by (simp add: interruptible_clone_def)

lemma clone_loop_unwritable_Running:
  "clone_loop i pr st mx w ts = Running w1 \<Longrightarrow> unwritable w1 = unwritable w"
  using clone_loop_frame(1) [of i pr st mx w ts] by simp

lemma log_after_set_progress:
  "path i \<notin> unwritable w \<Longrightarrow>
   last (progress_log (set_progress w i s p x)) = (path i, get_progress (set_progress w i s p x) i)"
  by (simp add: set_progress_def Let_def write_progress_def get_progress_def)

lemma status_after_set_canceled:
  "path i \<notin> unwritable w \<Longrightarrow> get_progress (set_canceled w i m) i ''status'' = Some (JStr ''canceled'')"
  by (simp add: get_progress_set_canceled Let_def)

text \<open>
  What the deadline check of the loop does give.  Take a clone that entered the
  supervising loop of \<^verbatim>\<open>interruptible_clone\<close> and is still running after the iterations
  \<open>pre\<close>.  If the clock reading with which the next iteration starts exceeds
  \<^verbatim>\<open>max_seconds\<close>, the call returns the empty string and the status it leaves is not
  \<^verbatim>\<open>error\<close>: when the cancel flag is not set at that iteration (the timeout path), the
  record is \<^verbatim>\<open>timeout\<close> at percent 100 and is the last one written; when the flag is
  set, the cancel check, which comes first, leaves \<^verbatim>\<open>canceled\<close>.  The progress file is
  assumed writable.  This needs the loop to come back to its check after the deadline.
\<close>

lemma deadline_check_yields_timeout:
  assumes start: "clone_start w task_id url depth ev = Inr (w0, proc, repo_path)"
      and ticks: "e_ticks ev = pre @ t # post"
      and run: "clone_loop task_id proc (e_start ev) max_seconds w0 pre = Running w1"
      and late: "t_now t - e_start ev > of_int max_seconds"
      and wr: "path task_id \<notin> unwritable w"
  shows "\<exists>w'. interruptible_clone w task_id url max_seconds depth ev = Some (w', [])
           \<and> get_progress w' task_id ''status'' \<noteq> Some (JStr ''error'')
           \<and> (if is_canceled (apply_ext task_id (t_ext t) w1) task_id
              then get_progress w' task_id ''status'' = Some (JStr ''canceled'')
              else get_progress w' task_id ''status'' = Some (JStr ''timeout'')
                 \<and> get_progress w' task_id ''percent'' = Some (JInt 100)
                 \<and> last (progress_log w') = (path task_id, get_progress w' task_id))"
proof -
  let ?w2 = "apply_ext task_id (t_ext t) w1"
  have wr2: "path task_id \<notin> unwritable ?w2"
    using wr clone_start_unwritable [OF start] clone_loop_unwritable_Running [OF run] by simp
  have loop: "clone_loop task_id proc (e_start ev) max_seconds w0 (e_ticks ev) =
              clone_iteration task_id proc (e_start ev) max_seconds w1 t"
    using ticks run late
    by (cases "is_canceled ?w2 task_id")
       (simp_all add: clone_loop_append clone_iteration_canceled clone_iteration_timeout)
  show ?thesis
  proof (cases "is_canceled ?w2 task_id")
    case True
    let ?w' = "PROCS_pop (terminate_kill (set_canceled ?w2 task_id ''Canceled by user'') proc) task_id"
    have "interruptible_clone w task_id url max_seconds depth ev = Some (?w', [])"
      using interruptible_clone_started [OF start] loop True
      by (simp add: clone_iteration_canceled clone_finish_def)
    moreover have "get_progress ?w' task_id ''status'' = Some (JStr ''canceled'')"
      using wr2 by (simp add: status_after_set_canceled)
    ultimately show ?thesis using True by auto
  next
    case False
    let ?w3 = "set_progress ?w2 task_id ''timeout'' 100 (Some [''message'' \<mapsto> JStr ''Clone timed out''])"
    let ?w' = "PROCS_pop (terminate_kill ?w3 proc) task_id"
    have "interruptible_clone w task_id url max_seconds depth ev = Some (?w', [])"
      using interruptible_clone_started [OF start] loop False late
      by (simp add: clone_iteration_timeout clone_finish_def)
    moreover have "get_progress ?w' task_id ''status'' = Some (JStr ''timeout'')"
      using wr2 by (simp add: status_after_set_progress)
    moreover have "get_progress ?w' task_id ''percent'' = Some (JInt 100)"
      using wr2 by (simp add: percent_after_set_progress)
    moreover have "last (progress_log ?w') = (path task_id, get_progress ?w' task_id)"
      using wr2 by (simp add: log_after_set_progress)
    ultimately show ?thesis using False by auto
  qed
qed


lemma not_invalid_widgets: "\<not> invalid_url url_widgets"
  by (simp add: invalid_url_def url_widgets_def)

lemma not_canceled_world0: "\<not> is_canceled world0 i"
  by (simp add: is_canceled_def get_progress_def world0_def infer_from_jobs_def get_jobs_def
      load_def truthy_opt_def)

lemma parse_line10: "parse_progress ''Receiving objects:  10% (1/10)\<newline>'' = Some 10"
  by code_simp

lemma clone_iteration_line:
  "\<not> is_canceled w i \<Longrightarrow> t_ext t = None \<Longrightarrow> \<not> (t_now t - st > of_int mx) \<Longrightarrow>
   t_read t = Readline l \<Longrightarrow> l \<noteq> [] \<Longrightarrow> parse_progress l = Some p \<Longrightarrow> \<not> float_overflow p \<Longrightarrow>
   clone_iteration i pr st mx w t =
     Running (set_progress w i ''cloning'' (mapped p) (Some [''stage'' \<mapsto> JStr ''clone'']))"
  by (simp add: clone_iteration_def apply_ext_def)

lemma clone_iteration_exit:
  "\<not> is_canceled w i \<Longrightarrow> t_ext t = None \<Longrightarrow> \<not> (t_now t - st > of_int mx) \<Longrightarrow>
   t_read t = Readline [] \<Longrightarrow> t_poll t = Some code \<Longrightarrow>
   clone_iteration i pr st mx w t = Broke w code"
  by (simp add: clone_iteration_def apply_ext_def)

text \<open>The world at loop entry of the concrete runs, and after their first progress line.\<close>

lemma start_t1:
  assumes "e_mkdtemp ev = Inr ''/tmp/tmpab12''" "e_spawn ev = Inr 4242"
  shows "\<exists>w0. clone_start world0 ''t1'' url_widgets 1 ev = Inr (w0, 4242, path_join ''/tmp/tmpab12'' (repo_name url_widgets))
            \<and> \<not> is_canceled w0 ''t1'' \<and> unwritable w0 = {}"
proof -
  note s = clone_start_ok [OF not_invalid_widgets assms, of world0 "''t1''" 1]
  have "\<not> is_canceled (fst (projr (clone_start world0 ''t1'' url_widgets 1 ev))) ''t1''"
    using is_canceled_clone_start [of world0 "''t1''" url_widgets 1 ev] s not_canceled_world0
    by simp
  moreover have "unwritable (fst (projr (clone_start world0 ''t1'' url_widgets 1 ev))) = {}"
    using clone_start_unwritable [of world0 "''t1''" url_widgets 1 ev] s
    by (simp add: world0_def)
  ultimately show ?thesis using s by simp
qed

lemma float_overflow_10: "\<not> float_overflow 10"
  by (simp add: float_overflow_def)

lemma first_line_t1:
  assumes "\<not> is_canceled w0 ''t1''"
  shows "clone_loop ''t1'' 4242 0 180 w0 [tick_line 1 ''Receiving objects:  10% (1/10)\<newline>''] =
         Running (set_progress w0 ''t1'' ''cloning'' (mapped 10) (Some [''stage'' \<mapsto> JStr ''clone'']))"
  using clone_iteration_line [where t = "tick_line 1 ''Receiving objects:  10% (1/10)\<newline>''"
      and st = 0 and mx = 180 and pr = 4242, OF assms _ _ _ _ parse_line10 float_overflow_10]
  by (simp add: tick_line_def)

lemma deadline_check_yields_timeout_example:
  "\<exists>w'. interruptible_clone world0 ''t1'' url_widgets 180 1 env_timeout = Some (w', [])
       \<and> get_progress w' ''t1'' ''status'' = Some (JStr ''timeout'')
       \<and> get_progress w' ''t1'' ''percent'' = Some (JInt 100)"
proof -
  obtain w0 where s: "clone_start world0 ''t1'' url_widgets 1 env_timeout =
        Inr (w0, 4242, path_join ''/tmp/tmpab12'' (repo_name url_widgets))"
      and nc: "\<not> is_canceled w0 ''t1''"
    using start_t1 [of env_timeout] by (auto simp: env_timeout_def)
  let ?w1 = "set_progress w0 ''t1'' ''cloning'' (mapped 10) (Some [''stage'' \<mapsto> JStr ''clone''])"
  let ?t = "tick_line 181 ''Receiving objects:  20% (2/10)\<newline>''"
  have r: "clone_loop ''t1'' 4242 (e_start env_timeout) 180 w0
             [tick_line 1 ''Receiving objects:  10% (1/10)\<newline>''] = Running ?w1"
    using first_line_t1 [OF nc] by (simp add: env_timeout_def)
  have tk: "e_ticks env_timeout = [tick_line 1 ''Receiving objects:  10% (1/10)\<newline>''] @ ?t # []"
    by (simp add: env_timeout_def)
  have late: "t_now ?t - e_start env_timeout > of_int 180"
    by (simp add: env_timeout_def tick_line_def)
  have wr: "path ''t1'' \<notin> unwritable world0" by (simp add: world0_def)
  have nc1: "\<not> is_canceled (apply_ext ''t1'' (t_ext ?t) ?w1) ''t1''"
    using nc by (simp add: tick_line_def apply_ext_def is_canceled_set_progress)
  from deadline_check_yields_timeout [OF s tk r late wr] nc1 show ?thesis by auto
qed

lemma path_join_nonempty: "a \<noteq> [] \<Longrightarrow> path_join a b \<noteq> []"
  by (simp add: path_join_def)

lemma clone_start_repo_path:
  "clone_start w i url depth ev = Inr (w0, pr, rp) \<Longrightarrow> e_mkdtemp ev = Inr tmp \<Longrightarrow>
   rp = path_join tmp (repo_name url)"
  by (auto simp: clone_start_def Let_def split: if_splits sum.splits)

lemma clone_loop_unwritable_Broke:
  "clone_loop i pr st mx w ts = Broke w1 c \<Longrightarrow> unwritable w1 = unwritable w"
  using clone_loop_frame(1) [of i pr st mx w ts] by simp

text \<open>
  C6.  When the supervising loop of \<^verbatim>\<open>interruptible_clone\<close> ends because the child has
  exited with code \<open>code\<close>: for code 0 the call leaves the record \<^verbatim>\<open>mapped\<close> at percent 60
  and returns \<^verbatim>\<open>repo_path\<close>, the temporary directory joined with the repository name, a
  non-empty string; for any other code it leaves \<^verbatim>\<open>error\<close> at percent 100 with the
  message \<^verbatim>\<open>git clone failed: <code>\<close> and returns the empty string.  The progress file
  is assumed writable and \<^verbatim>\<open>mkdtemp\<close> to return a non-empty path.
\<close>

theorem exit_code_handling:
  assumes start: "clone_start w task_id url depth ev = Inr (w0, proc, repo_path)"
      and loop: "clone_loop task_id proc (e_start ev) max_seconds w0 (e_ticks ev) = Broke w1 code"
      and tmp: "e_mkdtemp ev = Inr tmp" and tmp_nonempty: "tmp \<noteq> []"
      and wr: "path task_id \<notin> unwritable w"
  shows "\<exists>w'. interruptible_clone w task_id url max_seconds depth ev =
                 Some (w', if code = 0 then repo_path else [])
           \<and> repo_path = path_join tmp (repo_name url) \<and> repo_path \<noteq> []
           \<and> (if code = 0
              then get_progress w' task_id ''status'' = Some (JStr ''mapped'')
                 \<and> get_progress w' task_id ''percent'' = Some (JInt 60)
              else get_progress w' task_id ''status'' = Some (JStr ''error'')
                 \<and> get_progress w' task_id ''percent'' = Some (JInt 100)
                 \<and> get_progress w' task_id ''message'' =
                     Some (JStr (''git clone failed: '' @ str_int code)))"
proof -
  have wr1: "path task_id \<notin> unwritable (PROCS_pop w1 task_id)"
    using wr clone_start_unwritable [OF start] clone_loop_unwritable_Broke [OF loop] by simp
  have rp: "repo_path = path_join tmp (repo_name url)"
    using clone_start_repo_path [OF start tmp] .
  have ne: "repo_path \<noteq> []"
    using rp path_join_nonempty [OF tmp_nonempty] by simp
  show ?thesis
  proof (cases "code = 0")
    case True
    let ?w' = "set_progress (PROCS_pop w1 task_id) task_id ''mapped'' 60 (Some [''stage'' \<mapsto> JStr ''map''])"
    have "interruptible_clone w task_id url max_seconds depth ev = Some (?w', repo_path)"
      using interruptible_clone_started [OF start] loop True by (simp add: clone_finish_def)
    moreover have "get_progress ?w' task_id ''status'' = Some (JStr ''mapped'')"
      using wr1 by (simp add: status_after_set_progress)
    moreover have "get_progress ?w' task_id ''percent'' = Some (JInt 60)"
      using wr1 by (simp add: percent_after_set_progress)
    ultimately show ?thesis using True rp ne by auto
  next
    case False
    let ?m = "''git clone failed: '' @ str_int code"
    let ?w' = "set_progress (PROCS_pop w1 task_id) task_id ''error'' 100 (Some [''message'' \<mapsto> JStr ?m])"
    have "interruptible_clone w task_id url max_seconds depth ev = Some (?w', [])"
      using interruptible_clone_started [OF start] loop False by (simp add: clone_finish_def)
    moreover have "get_progress ?w' task_id ''status'' = Some (JStr ''error'')"
      using wr1 by (simp add: status_after_set_progress)
    moreover have "get_progress ?w' task_id ''percent'' = Some (JInt 100)"
      using wr1 by (simp add: percent_after_set_progress)
    moreover have "get_progress ?w' task_id ''message'' = Some (JStr ?m)"
      using wr1 by (simp add: extra_after_set_progress)
    ultimately show ?thesis using False rp ne by auto
  qed
qed


lemma exit_run_t1:
  assumes "\<not> is_canceled w0 ''t1''"
  shows "clone_loop ''t1'' 4242 0 180 w0
           [tick_line 1 ''Receiving objects:  10% (1/10)\<newline>'', tick_exit 2 code] =
         Broke (set_progress w0 ''t1'' ''cloning'' (mapped 10) (Some [''stage'' \<mapsto> JStr ''clone''])) code"
proof -
  let ?w1 = "set_progress w0 ''t1'' ''cloning'' (mapped 10) (Some [''stage'' \<mapsto> JStr ''clone''])"
  have nc: "\<not> is_canceled ?w1 ''t1''"
    using assms by (simp add: is_canceled_set_progress)
  have "clone_iteration ''t1'' 4242 0 180 ?w1 (tick_exit 2 code) = Broke ?w1 code"
    by (rule clone_iteration_exit [OF nc]) (simp_all add: tick_exit_def)
  then show ?thesis
    using first_line_t1 [OF assms]
      clone_loop_append [of "''t1''" 4242 0 180 w0 "[tick_line 1 ''Receiving objects:  10% (1/10)\<newline>'']"
        "[tick_exit 2 code]"]
    by simp
qed

lemma repo_path_widgets: "path_join ''/tmp/tmpab12'' (repo_name url_widgets) = ''/tmp/tmpab12/widgets''"
  by (simp add: path_join_def repo_name_def url_widgets_def strip_git_def last_component_def
      rstrip_slash_def suffix_to_prefix)

lemma str_int_128: "str_int 128 = ''128''"
  by (simp add: str_int_def str_nat.simps digit_char_def)

theorem exit_code_handling_witness:
  "(\<exists>w'. interruptible_clone world0 ''t1'' url_widgets 180 1 (env_exit 0) = Some (w', ''/tmp/tmpab12/widgets'')
        \<and> get_progress w' ''t1'' ''status'' = Some (JStr ''mapped'')
        \<and> get_progress w' ''t1'' ''percent'' = Some (JInt 60))
 \<and> (\<exists>w'. interruptible_clone world0 ''t1'' url_widgets 180 1 (env_exit 128) = Some (w', [])
        \<and> get_progress w' ''t1'' ''status'' = Some (JStr ''error'')
        \<and> get_progress w' ''t1'' ''percent'' = Some (JInt 100)
        \<and> get_progress w' ''t1'' ''message'' = Some (JStr ''git clone failed: 128''))"
proof -
  have wr: "path ''t1'' \<notin> unwritable world0" by (simp add: world0_def)
  have run: "\<exists>w'. interruptible_clone world0 ''t1'' url_widgets 180 1 (env_exit c) =
                 Some (w', if c = 0 then ''/tmp/tmpab12/widgets'' else [])
           \<and> (if c = 0
              then get_progress w' ''t1'' ''status'' = Some (JStr ''mapped'')
                 \<and> get_progress w' ''t1'' ''percent'' = Some (JInt 60)
              else get_progress w' ''t1'' ''status'' = Some (JStr ''error'')
                 \<and> get_progress w' ''t1'' ''percent'' = Some (JInt 100)
                 \<and> get_progress w' ''t1'' ''message'' =
                     Some (JStr (''git clone failed: '' @ str_int c)))" for c
  proof -
    obtain w0 where s: "clone_start world0 ''t1'' url_widgets 1 (env_exit c) =
          Inr (w0, 4242, path_join ''/tmp/tmpab12'' (repo_name url_widgets))"
        and nc: "\<not> is_canceled w0 ''t1''"
      using start_t1 [of "env_exit c"] by (auto simp: env_exit_def)
    have l: "clone_loop ''t1'' 4242 (e_start (env_exit c)) 180 w0 (e_ticks (env_exit c)) =
             Broke (set_progress w0 ''t1'' ''cloning'' (mapped 10) (Some [''stage'' \<mapsto> JStr ''clone''])) c"
      using exit_run_t1 [OF nc, of c] by (simp add: env_exit_def)
    have tmp: "e_mkdtemp (env_exit c) = Inr ''/tmp/tmpab12''" by (simp add: env_exit_def)
    from exit_code_handling [OF s l tmp _ wr] show ?thesis
      by (auto simp: repo_path_widgets)
  qed
  from run [of 0] run [of 128] show ?thesis by (simp add: str_int_128)
qed

text \<open>
  C3 fails in the code.  \<^verbatim>\<open>interruptible_clone\<close> compares the elapsed time with
  \<^verbatim>\<open>max_seconds\<close> only at the head of an iteration and then waits in \<^verbatim>\<open>readline()\<close>,
  which blocks.  A child that prints nothing for 600 s and then ends is supervised for
  600 s of wall-clock time with \<^verbatim>\<open>max_seconds\<close> = 180, and the call never takes the
  timeout path: when the child ends with code 128 it returns the empty string with
  status \<^verbatim>\<open>error\<close>, and when the child ends with code 0 it returns the repository path
  with status \<^verbatim>\<open>mapped\<close>.
\<close>

theorem stalled_clone_misses_timeout:
  "elapsed_wall (env_stall 128) > 180
   \<and> returned (interruptible_clone world0 ''t1'' url_widgets 180 1 (env_stall 128)) = Some []
   \<and> status_after (interruptible_clone world0 ''t1'' url_widgets 180 1 (env_stall 128)) ''t1''
       = Some (Some (JStr ''error''))
   \<and> elapsed_wall (env_stall 0) > 180
   \<and> returned (interruptible_clone world0 ''t1'' url_widgets 180 1 (env_stall 0))
       = Some ''/tmp/tmpab12/widgets''
   \<and> status_after (interruptible_clone world0 ''t1'' url_widgets 180 1 (env_stall 0)) ''t1''
       = Some (Some (JStr ''mapped''))"
proof -
  have run: "\<exists>w0. interruptible_clone world0 ''t1'' url_widgets 180 1 (env_stall c) =
                  clone_finish ''t1'' ''/tmp/tmpab12/widgets'' (Broke w0 c)
               \<and> unwritable w0 = {}" for c
  proof -
    obtain w0 where s: "clone_start world0 ''t1'' url_widgets 1 (env_stall c) =
          Inr (w0, 4242, path_join ''/tmp/tmpab12'' (repo_name url_widgets))"
        and nc: "\<not> is_canceled w0 ''t1''" and uw: "unwritable w0 = {}"
      using start_t1 [of "env_stall c"] by (auto simp: env_stall_def)
    have "clone_iteration ''t1'' 4242 0 180 w0
            \<lparr>t_ext = None, t_now = 0, t_read = Readline [], t_poll = Some c, t_after = 600\<rparr>
          = Broke w0 c"
      by (rule clone_iteration_exit [OF nc]) simp_all
    then have "clone_loop ''t1'' 4242 (e_start (env_stall c)) 180 w0 (e_ticks (env_stall c)) =
               Broke w0 c"
      by (simp add: env_stall_def)
    then have "interruptible_clone world0 ''t1'' url_widgets 180 1 (env_stall c) =
                 clone_finish ''t1'' ''/tmp/tmpab12/widgets'' (Broke w0 c)"
      using interruptible_clone_started [OF s] by (simp add: repo_path_widgets)
    then show ?thesis using uw by blast
  qed
  obtain wa where a: "interruptible_clone world0 ''t1'' url_widgets 180 1 (env_stall 128) =
                  clone_finish ''t1'' ''/tmp/tmpab12/widgets'' (Broke wa 128)"
      and ua: "unwritable wa = {}"
    using run [of 128] by blast
  obtain wb where b: "interruptible_clone world0 ''t1'' url_widgets 180 1 (env_stall 0) =
                  clone_finish ''t1'' ''/tmp/tmpab12/widgets'' (Broke wb 0)"
      and ub: "unwritable wb = {}"
    using run [of 0] by blast
  have wa: "path ''t1'' \<notin> unwritable (PROCS_pop wa ''t1'')" using ua by simp
  have wb: "path ''t1'' \<notin> unwritable (PROCS_pop wb ''t1'')" using ub by simp
  have e: "elapsed_wall (env_stall c) = 600" for c
    by (simp add: elapsed_wall_def env_stall_def)
  have "returned (interruptible_clone world0 ''t1'' url_widgets 180 1 (env_stall 128)) = Some []"
    using a by (simp add: clone_finish_def returned_def)
  moreover have "status_after (interruptible_clone world0 ''t1'' url_widgets 180 1 (env_stall 128)) ''t1''
       = Some (Some (JStr ''error''))"
    using a status_after_set_progress [OF wa,
        of "[''message'' \<mapsto> JStr (''git clone failed: '' @ str_int 128)]" "''error''" 100]
    by (simp add: clone_finish_def status_after_def)
  moreover have "returned (interruptible_clone world0 ''t1'' url_widgets 180 1 (env_stall 0))
       = Some ''/tmp/tmpab12/widgets''"
    using b by (simp add: clone_finish_def returned_def)
  moreover have "status_after (interruptible_clone world0 ''t1'' url_widgets 180 1 (env_stall 0)) ''t1''
       = Some (Some (JStr ''mapped''))"
    using b status_after_set_progress [OF wb, of "[''stage'' \<mapsto> JStr ''map'']" "''mapped''" 60]
    by (simp add: clone_finish_def status_after_def)
  ultimately show ?thesis using e by simp
qed

lemma is_canceled_apply_ext:
  assumes "is_canceled w i" and "x \<noteq> Some ExtClearProgress"
  shows "is_canceled (apply_ext i x w) i"
proof (cases x)
  case None
  then show ?thesis using assms by (simp add: apply_ext_def)
next
  case (Some a)
  then show ?thesis
    using assms
    by (cases a)
       (simp_all add: apply_ext_def cancel_clone_def Let_def is_canceled_set_canceled_keeps
          split: option.splits)
qed

lemma clone_start_Inl_error:
  assumes "clone_start w i url depth ev = Inl w'" and "path i \<notin> unwritable w"
  shows "get_progress w' i ''status'' = Some (JStr ''error'')"
  using assms
  by (auto simp: clone_start_def clone_except_def Let_def status_after_set_progress
      split: if_splits sum.splits exn.splits)

text \<open>
  C10.  For a task id with no entry in \<^verbatim>\<open>_PROCS\<close>, \<^verbatim>\<open>cancel_clone(id)\<close> returns false and
  still writes a canceled record (status \<^verbatim>\<open>canceled\<close>, \<^verbatim>\<open>canceled\<close> true, message
  \<^verbatim>\<open>No running process\<close>).  A following \<^verbatim>\<open>interruptible_clone\<close> for the same id, whatever
  its URL and environment, returns the empty string: either it fails before the loop
  (status \<^verbatim>\<open>error\<close>) or its first loop iteration sees \<^verbatim>\<open>is_canceled\<close> true and returns
  (status \<^verbatim>\<open>canceled\<close>), unless the record was cleared in between.  The progress file is
  assumed writable, and the environment to let the first iteration happen.
\<close>

theorem cancel_without_process:
  assumes idle: "PROCS w task_id = None"
      and wr: "path task_id \<notin> unwritable w"
      and ticks: "e_ticks ev = t # ts"
      and not_cleared: "t_ext t \<noteq> Some ExtClearProgress"
  shows "snd (cancel_clone w task_id) = False
       \<and> get_progress (fst (cancel_clone w task_id)) task_id ''status'' = Some (JStr ''canceled'')
       \<and> get_progress (fst (cancel_clone w task_id)) task_id ''canceled'' = Some (JBool True)
       \<and> get_progress (fst (cancel_clone w task_id)) task_id ''message'' = Some (JStr ''No running process'')
       \<and> is_canceled (fst (cancel_clone w task_id)) task_id
       \<and> (case clone_start (fst (cancel_clone w task_id)) task_id url depth ev of
             Inl w' \<Rightarrow> True
           | Inr (w0, proc, repo_path) \<Rightarrow> is_canceled (apply_ext task_id (t_ext t) w0) task_id)
       \<and> (\<exists>w'. interruptible_clone (fst (cancel_clone w task_id)) task_id url max_seconds depth ev
                   = Some (w', [])
              \<and> get_progress w' task_id ''status'' \<in> {Some (JStr ''canceled''), Some (JStr ''error'')})"
proof -
  let ?wc = "fst (cancel_clone w task_id)"
  have wc: "?wc = set_canceled w task_id ''No running process''"
    using idle by (simp add: cancel_clone_def)
  have r: "snd (cancel_clone w task_id) = False"
    using idle by (simp add: cancel_clone_def)
  have rec: "get_progress ?wc task_id ''status'' = Some (JStr ''canceled'')"
      "get_progress ?wc task_id ''canceled'' = Some (JBool True)"
      "get_progress ?wc task_id ''message'' = Some (JStr ''No running process'')"
    using wr by (simp_all add: wc get_progress_set_canceled Let_def)
  have c: "is_canceled ?wc task_id"
    using wr by (simp add: wc is_canceled_set_canceled)
  have wrc: "path task_id \<notin> unwritable ?wc" using wr by simp
  show ?thesis
  proof (cases "clone_start ?wc task_id url depth ev")
    case (Inl w')
    then have "interruptible_clone ?wc task_id url max_seconds depth ev = Some (w', [])"
      by (simp add: interruptible_clone_def)
    moreover have "get_progress w' task_id ''status'' = Some (JStr ''error'')"
      using clone_start_Inl_error [OF Inl wrc] .
    ultimately show ?thesis using r rec c Inl by simp
  next
    case (Inr b)
    obtain w0 proc rp where b: "b = (w0, proc, rp)" by (cases b) auto
    have s: "clone_start ?wc task_id url depth ev = Inr (w0, proc, rp)" using Inr b by simp
    have c0: "is_canceled w0 task_id" using is_canceled_clone_start [OF s] c by simp
    let ?w2 = "apply_ext task_id (t_ext t) w0"
    have c2: "is_canceled ?w2 task_id" using is_canceled_apply_ext [OF c0 not_cleared] .
    have wr2: "path task_id \<notin> unwritable ?w2"
      using wrc clone_start_unwritable [OF s] by simp
    let ?w' = "PROCS_pop (terminate_kill (set_canceled ?w2 task_id ''Canceled by user'') proc) task_id"
    have "interruptible_clone ?wc task_id url max_seconds depth ev = Some (?w', [])"
      using interruptible_clone_started [OF s] ticks c2
      by (simp add: clone_iteration_canceled clone_finish_def)
    moreover have "get_progress ?w' task_id ''status'' = Some (JStr ''canceled'')"
      using wr2 by (simp add: status_after_set_canceled)
    ultimately show ?thesis using r rec c s c2 by simp
  qed
qed

theorem cancel_without_process_witness:
  "snd (cancel_clone world0 ''t1'') = False
   \<and> is_canceled (fst (cancel_clone world0 ''t1'')) ''t1''
   \<and> get_progress (fst (cancel_clone world0 ''t1'')) ''t1'' ''message'' = Some (JStr ''No running process'')
   \<and> (\<exists>w'. interruptible_clone (fst (cancel_clone world0 ''t1'')) ''t1'' url_widgets 180 1 (env_exit 0)
               = Some (w', [])
          \<and> get_progress w' ''t1'' ''status'' \<in> {Some (JStr ''canceled''), Some (JStr ''error'')})"
proof -
  have idle: "PROCS world0 ''t1'' = None" by (simp add: world0_def)
  have wr: "path ''t1'' \<notin> unwritable world0" by (simp add: world0_def)
  have tk: "e_ticks (env_exit 0) = tick_line 1 ''Receiving objects:  10% (1/10)\<newline>'' # [tick_exit 2 0]"
    by (simp add: env_exit_def)
  have nx: "t_ext (tick_line 1 ''Receiving objects:  10% (1/10)\<newline>'') \<noteq> Some ExtClearProgress"
    by (simp add: tick_line_def)
  from cancel_without_process [OF idle wr tk nx, of url_widgets 1 180] show ?thesis by simp
qed

section \<open>Percents written by one loop\<close>

lemma percents_written_set_progress:
  assumes "path i \<notin> unwritable w" and "e ''percent'' = None"
  shows "percents_written (set_progress w i s p (Some e)) i =
         percents_written w i @ [max 0 (min 100 p)]"
  using assms
  by (simp add: percents_written_def set_progress_def Let_def write_progress_def map_filter_def
      percent_of_def update_extra_apply)

lemma percents_written_cong:
  "progress_log w' = progress_log w \<Longrightarrow> percents_written w' i = percents_written w i"
  by (simp add: percents_written_def)

lemma percents_written_terminate_kill [simp]:
  "percents_written (terminate_kill w p) i = percents_written w i"
  by (rule percents_written_cong) simp

lemma percents_written_PROCS_pop [simp]:
  "percents_written (PROCS_pop w j) i = percents_written w i"
  by (rule percents_written_cong) simp

lemma mapped_mono: "p \<le> q \<Longrightarrow> mapped p \<le> mapped q"
  by (simp add: mapped_def zdiv_mono1)

lemma parse_progress_Nil: "parse_progress [] = None"
  by (simp add: parse_progress_def RECV_RE_def RESV_RE_def CHK_RE_def rx_match_def)

lemma line_percents_Cons:
  "line_percents (t # ts) =
     (case t_read t of
        Readline l \<Rightarrow> (case parse_progress l of Some p \<Rightarrow> p # line_percents ts | None \<Rightarrow> line_percents ts)
      | ReadRaises e \<Rightarrow> line_percents ts)"
  by (simp add: line_percents_def map_filter_simps split: read_result.splits option.splits)

lemma loop_percents_aux:
  assumes "path i \<notin> unwritable w" and "\<not> is_canceled w i"
      and "\<forall>t \<in> set ticks. t_ext t = None" and "sorted (line_percents ticks)"
  shows "\<exists>ps. percents_written (exit_world (clone_loop i pr st mx w ticks)) i = percents_written w i @ ps
            \<and> sorted ps
            \<and> (\<forall>x \<in> set ps. x = 100 \<or> (\<exists>q \<in> set (line_percents ticks). x = max 0 (min 100 (mapped q))))"
  using assms
proof (induction ticks arbitrary: w)
  case Nil
  then show ?case by simp
next
  case (Cons t ts)
  have ext: "apply_ext i (t_ext t) w = w" using Cons.prems(3) by (simp add: apply_ext_def)
  have quiet: "\<forall>t \<in> set ts. t_ext t = None" using Cons.prems(3) by simp
  show ?case
  proof (cases "t_now t - st > of_int mx")
    case True
    then have "clone_iteration i pr st mx w t =
        Returned (terminate_kill (set_progress w i ''timeout'' 100
          (Some [''message'' \<mapsto> JStr ''Clone timed out''])) pr) []"
      using clone_iteration_timeout [where i = i and t = t and w = w and st = st and mx = mx and pr = pr]
        Cons.prems(2) ext by simp
    then show ?thesis
      using Cons.prems(1) by (simp add: percents_written_set_progress)
  next
    case False
    show ?thesis
    proof (cases "t_read t")
      case (ReadRaises e)
      then have "clone_iteration i pr st mx w t = Raised w e"
        using False Cons.prems(2) ext by (simp add: clone_iteration_def)
      then show ?thesis by simp
    next
      case (Readline l)
      show ?thesis
      proof (cases "parse_progress l")
        case None
        have lp: "line_percents (t # ts) = line_percents ts"
          using Readline None by (simp add: line_percents_Cons)
        have it: "clone_iteration i pr st mx w t = Running w
                \<or> (\<exists>c. clone_iteration i pr st mx w t = Broke w c)"
          using False Cons.prems(2) ext Readline None
          by (auto simp: clone_iteration_def split: option.splits)
        then show ?thesis
        proof
          assume r: "clone_iteration i pr st mx w t = Running w"
          from Cons.IH [OF Cons.prems(1) Cons.prems(2) quiet] Cons.prems(4) lp r
          show ?thesis by simp
        next
          assume "\<exists>c. clone_iteration i pr st mx w t = Broke w c"
          then show ?thesis by auto
        qed
      next
        case (Some p)
        have l: "l \<noteq> []" using Some parse_progress_Nil by auto
        have lp: "line_percents (t # ts) = p # line_percents ts"
          using Readline Some by (simp add: line_percents_Cons)
        show ?thesis
        proof (cases "float_overflow p")
          case True
          then have "clone_iteration i pr st mx w t =
              Raised w (Exception ''int too large to convert to float'')"
            using False Cons.prems(2) ext Readline Some l by (simp add: clone_iteration_def)
          then show ?thesis by simp
        next
          case nov: False
          let ?w1 = "set_progress w i ''cloning'' (mapped p) (Some [''stage'' \<mapsto> JStr ''clone''])"
          have it: "clone_iteration i pr st mx w t = Running ?w1"
            using clone_iteration_line [OF Cons.prems(2) _ False Readline l Some nov, of pr]
              Cons.prems(3) by simp
          have wr1: "path i \<notin> unwritable ?w1" using Cons.prems(1) by simp
          have nc1: "\<not> is_canceled ?w1 i"
            using Cons.prems(2) by (simp add: is_canceled_set_progress)
          have s1: "sorted (line_percents ts)" using Cons.prems(4) lp by simp
          have low: "\<forall>q \<in> set (line_percents ts). p \<le> q" using Cons.prems(4) lp by simp
          from Cons.IH [OF wr1 nc1 quiet s1]
          obtain ps where ps: "percents_written (exit_world (clone_loop i pr st mx ?w1 ts)) i =
                                 percents_written ?w1 i @ ps"
            and sps: "sorted ps"
            and bps: "\<forall>x \<in> set ps. x = 100 \<or> (\<exists>q \<in> set (line_percents ts). x = max 0 (min 100 (mapped q)))"
            by blast
          let ?c = "max 0 (min 100 (mapped p))"
          have ge: "\<forall>x \<in> set ps. ?c \<le> x"
          proof
            fix x assume "x \<in> set ps"
            with bps have "x = 100 \<or> (\<exists>q \<in> set (line_percents ts). x = max 0 (min 100 (mapped q)))"
              by blast
            then show "?c \<le> x"
            proof
              assume "x = 100" then show ?thesis by simp
            next
              assume "\<exists>q \<in> set (line_percents ts). x = max 0 (min 100 (mapped q))"
              then obtain q where q: "q \<in> set (line_percents ts)" and x: "x = max 0 (min 100 (mapped q))"
                by blast
              from low q have "mapped p \<le> mapped q" by (simp add: mapped_mono)
              then show ?thesis using x by simp
            qed
          qed
          have "percents_written (exit_world (clone_loop i pr st mx w (t # ts))) i =
                percents_written w i @ (?c # ps)"
            using it ps Cons.prems(1) by (simp add: percents_written_set_progress)
          moreover have "sorted (?c # ps)" using sps ge by simp
          moreover have "\<forall>x \<in> set (?c # ps). x = 100 \<or>
              (\<exists>q \<in> set (line_percents (t # ts)). x = max 0 (min 100 (mapped q)))"
            using bps lp by auto
          ultimately show ?thesis by blast
        qed
      qed
    qed
  qed
qed


lemma mapped_ge_20: "20 \<le> mapped q"
  by (simp add: mapped_def)

text \<open>
  C9.  In one run of the supervising loop of \<^verbatim>\<open>interruptible_clone\<close> in which no other
  thread touches the task and the cancel flag is not set at entry, the percents the
  loop writes are non-decreasing, and lie between 20 and 100, whenever the phase
  percents carried by the successive recognized progress lines are non-decreasing:
  a recognized line with phase percent \<open>p\<close> writes \<open>min(100, 20 + \<lfloor>0.6 p\<rfloor>)\<close>, which is
  monotone in \<open>p\<close>, and the timeout path writes 100.  The progress file is assumed
  writable.
\<close>

theorem loop_percents_monotone:
  assumes "path task_id \<notin> unwritable w" and "\<not> is_canceled w task_id"
      and "\<forall>t \<in> set ticks. t_ext t = None" and "sorted (line_percents ticks)"
  shows "\<exists>ps. percents_written (exit_world (clone_loop task_id proc start max_seconds w ticks)) task_id
                 = percents_written w task_id @ ps
            \<and> sorted ps \<and> (\<forall>x \<in> set ps. 20 \<le> x \<and> x \<le> 100)"
proof -
  from loop_percents_aux [OF assms, of proc start max_seconds]
  obtain ps where ps: "percents_written (exit_world (clone_loop task_id proc start max_seconds w ticks)) task_id
                 = percents_written w task_id @ ps" and s: "sorted ps"
    and b: "\<forall>x \<in> set ps. x = 100 \<or> (\<exists>q \<in> set (line_percents ticks). x = max 0 (min 100 (mapped q)))"
    by blast
  have "\<forall>x \<in> set ps. 20 \<le> x \<and> x \<le> 100"
  proof
    fix x assume "x \<in> set ps"
    with b have "x = 100 \<or> (\<exists>q. x = max 0 (min 100 (mapped q)))" by blast
    then show "20 \<le> x \<and> x \<le> 100"
    proof
      assume "x = 100" then show ?thesis by simp
    next
      assume "\<exists>q. x = max 0 (min 100 (mapped q))"
      then obtain q where "x = max 0 (min 100 (mapped q))" by blast
      then show ?thesis using mapped_ge_20 [of q] by linarith
    qed
  qed
  with ps s show ?thesis by blast
qed

lemma parse_line20: "parse_progress ''Receiving objects:  20% (2/10)\<newline>'' = Some 20"
  by code_simp

lemma line_percents_two: "line_percents ticks_two = [10, 20]"
  by (simp add: line_percents_def ticks_two_def tick_line_def map_filter_simps parse_line10 parse_line20)

theorem loop_percents_monotone_witness:
  "\<exists>ps. percents_written (exit_world (clone_loop ''t1'' 4242 0 180 world0 ticks_two)) ''t1''
           = percents_written world0 ''t1'' @ ps
       \<and> sorted ps"
proof -
  have wr: "path ''t1'' \<notin> unwritable world0" by (simp add: world0_def)
  have q: "\<forall>t \<in> set ticks_two. t_ext t = None" by (simp add: ticks_two_def tick_line_def)
  have s: "sorted (line_percents ticks_two)" by (simp add: line_percents_two)
  from loop_percents_monotone [OF wr not_canceled_world0 q s, of 4242 0 180]
  show ?thesis by blast
qed

lemma parse_recv100: "parse_progress ''Receiving objects: 100% (10/10), done.\<newline>'' = Some 100"
  by code_simp

lemma parse_resv0: "parse_progress ''Resolving deltas:   0% (0/3)\<newline>'' = Some 0"
  by code_simp

lemma float_overflow_small: "\<not> float_overflow 100" "\<not> float_overflow 0"
  by (simp_all add: float_overflow_def)

text \<open>
  C9 as stated fails: the three phases each count from 0 to 100 and the loop applies
  the formula to whichever phase a line belongs to.  When \<^verbatim>\<open>Receiving objects: 100%\<close> is
  followed by \<^verbatim>\<open>Resolving deltas: 0%\<close> the loop writes 80 and then 20 (after the 20
  written before the loop, and before the 60 written once the child has ended).
\<close>

theorem loop_percents_counterexample:
  "percents_after (interruptible_clone world0 ''t1'' url_widgets 180 1 env_phases) ''t1''
     = Some [20, 80, 20, 60]
   \<and> \<not> sorted [20, 80, 20, 60 :: int]"
proof -
  let ?l1 = "''Receiving objects: 100% (10/10), done.\<newline>''"
  let ?l2 = "''Resolving deltas:   0% (0/3)\<newline>''"
  let ?st = "Some [''stage'' \<mapsto> JStr ''clone'']"
  let ?wa = "world0\<lparr>spawned := spawned world0 @
                 [(4242, clone_cmd 1 url_widgets (path_join ''/tmp/tmpab12'' (repo_name url_widgets)))],
               PROCS := (PROCS world0)(''t1'' \<mapsto> 4242)\<rparr>"
  let ?w0 = "set_progress ?wa ''t1'' ''cloning'' 20 ?st"
  let ?w1 = "set_progress ?w0 ''t1'' ''cloning'' (mapped 100) ?st"
  let ?w2 = "set_progress ?w1 ''t1'' ''cloning'' (mapped 0) ?st"
  let ?w3 = "set_progress (PROCS_pop ?w2 ''t1'') ''t1'' ''mapped'' 60 (Some [''stage'' \<mapsto> JStr ''map''])"
  have s: "clone_start world0 ''t1'' url_widgets 1 env_phases =
             Inr (?w0, 4242, path_join ''/tmp/tmpab12'' (repo_name url_widgets))"
    by (rule clone_start_ok [OF not_invalid_widgets]) (simp_all add: env_phases_def)
  have wa: "path ''t1'' \<notin> unwritable ?wa" by (simp add: world0_def)
  have nca: "\<not> is_canceled ?wa ''t1''"
    using is_canceled_cong [of ?wa world0 "''t1''"] not_canceled_world0 by simp
  have nc0: "\<not> is_canceled ?w0 ''t1''" using nca by (simp add: is_canceled_set_progress)
  have nc1: "\<not> is_canceled ?w1 ''t1''" using nc0 by (simp add: is_canceled_set_progress)
  have nc2: "\<not> is_canceled ?w2 ''t1''" using nc1 by (simp add: is_canceled_set_progress)
  have i1: "clone_iteration ''t1'' 4242 0 180 ?w0 (tick_line 1 ?l1) = Running ?w1"
    by (rule clone_iteration_line [OF nc0 _ _ _ _ parse_recv100 float_overflow_small(1)])
       (simp_all add: tick_line_def)
  have i2: "clone_iteration ''t1'' 4242 0 180 ?w1 (tick_line 2 ?l2) = Running ?w2"
    by (rule clone_iteration_line [OF nc1 _ _ _ _ parse_resv0 float_overflow_small(2)])
       (simp_all add: tick_line_def)
  have i3: "clone_iteration ''t1'' 4242 0 180 ?w2 (tick_exit 3 0) = Broke ?w2 0"
    by (rule clone_iteration_exit [OF nc2]) (simp_all add: tick_exit_def)
  have l: "clone_loop ''t1'' 4242 (e_start env_phases) 180 ?w0 (e_ticks env_phases) = Broke ?w2 0"
    using i1 i2 i3 by (simp add: env_phases_def)
  have r: "interruptible_clone world0 ''t1'' url_widgets 180 1 env_phases =
             Some (?w3, path_join ''/tmp/tmpab12'' (repo_name url_widgets))"
    using interruptible_clone_started [OF s, of 180] l by (simp add: clone_finish_def)
  have pa: "percents_written ?wa ''t1'' = []"
    by (simp add: percents_written_def world0_def map_filter_simps)
  have p0: "percents_written ?w0 ''t1'' = [20]"
    using percents_written_set_progress [OF wa, of "[''stage'' \<mapsto> JStr ''clone'']" "''cloning''" 20] pa
    by simp
  have w0: "path ''t1'' \<notin> unwritable ?w0" using wa by simp
  have p1: "percents_written ?w1 ''t1'' = [20, 80]"
    using percents_written_set_progress [OF w0, of "[''stage'' \<mapsto> JStr ''clone'']" "''cloning''" "mapped 100"] p0
    by (simp add: mapped_def)
  have w1: "path ''t1'' \<notin> unwritable ?w1" using wa by simp
  have p2: "percents_written ?w2 ''t1'' = [20, 80, 20]"
    using percents_written_set_progress [OF w1, of "[''stage'' \<mapsto> JStr ''clone'']" "''cloning''" "mapped 0"] p1
    by (simp add: mapped_def)
  have w2: "path ''t1'' \<notin> unwritable (PROCS_pop ?w2 ''t1'')" using wa by simp
  have p3: "percents_written ?w3 ''t1'' = [20, 80, 20, 60]"
    using percents_written_set_progress [OF w2, of "[''stage'' \<mapsto> JStr ''map'']" "''mapped''" 60] p2
    by simp
  show ?thesis using r p3 by (simp add: percents_after_def)
qed

section \<open>The repository cache\<close>

lemma rmtree_frame [simp]:
  "unwritable (rmtree w p l) = unwritable w"
  "spawned (rmtree w p l) = spawned w"
  "jobs_json (rmtree w p l) = jobs_json w"
  "progress_files (rmtree w p l) = progress_files w"
  by (simp_all add: rmtree_def split: slot.splits)

lemma rmtree_if:
  "(if path_exists (cache w p) then rmtree w p l else w) = rmtree w p l"
  by (simp add: rmtree_def path_exists_def split: slot.splits)

lemma rmtree_slot:
  "cache (rmtree w p l) p =
     (case cache w p of Dir m \<Rightarrow> (case l of None \<Rightarrow> Missing | Some s \<Rightarrow> s) | s \<Rightarrow> s)"
  by (simp add: rmtree_def split: slot.splits)

lemma get_cached_path_cong:
  "cache w' = cache w \<Longrightarrow> get_cached_path h w' url = get_cached_path h w url"
  by (simp add: get_cached_path_def split: sum.splits)

lemma get_cached_path_slot:
  "key h url = Inr k \<Longrightarrow>
   get_cached_path h w url =
     Inr (if cache w (path_join CACHE_ROOT k) = Dir True
          then Some (path_join CACHE_ROOT k) else None)"
  by (cases "cache w (path_join CACHE_ROOT k)")
     (simp_all add: get_cached_path_def Let_def path_exists_def path_isdir_def git_marker_exists_def)

lemma get_cached_path_key:
  "get_cached_path h w url = Inr x \<Longrightarrow> \<exists>k. key h url = Inr k"
  by (cases "key h url") (simp_all add: get_cached_path_def)

lemma get_cached_path_Some:
  assumes "get_cached_path h w url = Inr (Some p)"
  shows "\<exists>k. key h url = Inr k \<and> p = path_join CACHE_ROOT k \<and> cache w p = Dir True"
proof -
  obtain k where k: "key h url = Inr k"
    using get_cached_path_key [OF assms] by blast
  show ?thesis
    using assms get_cached_path_slot [OF k, of w] k by (auto split: if_splits)
qed

lemma cache_path_nonempty: "path_join CACHE_ROOT k \<noteq> []"
  by (rule path_join_nonempty) (simp add: CACHE_ROOT_def)

lemma cache_iteration_frame [simp]:
  "unwritable (exit_world (cache_iteration i pr st mx w t)) = unwritable w"
  "cache (exit_world (cache_iteration i pr st mx w t)) = cache w"
  "spawned (exit_world (cache_iteration i pr st mx w t)) = spawned w"
  by (simp_all add: cache_iteration_def Let_def split: read_result.splits option.splits)

lemma cache_loop_frame [simp]:
  "unwritable (exit_world (cache_loop i pr st mx w ts)) = unwritable w"
  "cache (exit_world (cache_loop i pr st mx w ts)) = cache w"
  "spawned (exit_world (cache_loop i pr st mx w ts)) = spawned w"
proof (induction ts arbitrary: w)
  case Nil
  { case 1 show ?case by simp next
    case 2 show ?case by simp next
    case 3 show ?case by simp }
next
  case (Cons t ts)
  { case 1
    show ?case using Cons.IH(1) [of "exit_world (cache_iteration i pr st mx w t)"]
        cache_iteration_frame(1) [of i pr st mx w t]
      by (cases "cache_iteration i pr st mx w t") simp_all
  next
    case 2
    show ?case using Cons.IH(2) [of "exit_world (cache_iteration i pr st mx w t)"]
        cache_iteration_frame(2) [of i pr st mx w t]
      by (cases "cache_iteration i pr st mx w t") simp_all
  next
    case 3
    show ?case using Cons.IH(3) [of "exit_world (cache_iteration i pr st mx w t)"]
        cache_iteration_frame(3) [of i pr st mx w t]
      by (cases "cache_iteration i pr st mx w t") simp_all }
qed

lemma cache_iteration_Returned:
  "cache_iteration i pr st mx w t = Returned w' r \<Longrightarrow> r = []"
  by (auto simp: cache_iteration_def Let_def split: if_splits read_result.splits option.splits)

lemma cache_loop_Returned:
  "cache_loop i pr st mx w ts = Returned w' r \<Longrightarrow> r = []"
proof (induction ts arbitrary: w)
  case Nil
  then show ?case by simp
next
  case (Cons t ts)
  then show ?case
    by (cases "cache_iteration i pr st mx w t") (auto dest: cache_iteration_Returned)
qed

lemma cache_except_frame [simp]:
  "unwritable (cache_except w i e) = unwritable w"
  "cache (cache_except w i e) = cache w"
  "spawned (cache_except w i e) = spawned w"
  by (simp_all add: cache_except_def split: exn.splits)

lemma cache_finish_frame:
  assumes "cache_finish i cp ev ex = Some (w', r)"
  shows "cache w' = cache (exit_world ex)" and "unwritable w' = unwritable (exit_world ex)"
    and "spawned w' = spawned (exit_world ex)"
  using assms by (auto simp: cache_finish_def Let_def split: loop_exit.splits if_splits)

lemma cache_finish_result:
  assumes "cache_finish i cp ev (cache_loop i pr st mx w ts) = Some (w', r)"
  shows "r = Inr cp \<or> r = Inr []"
  using assms cache_loop_Returned [of i pr st mx w ts]
  by (auto simp: cache_finish_def Let_def split: loop_exit.splits if_splits)

text \<open>The world at loop entry when directory creation, binary lookup and spawn succeed.\<close>

lemma cache_start_form:
  assumes "e_makedirs ev = None" and "e_which_git ev" and "e_spawn ev = Inr pr"
  shows "cache_start w i url cp depth ev =
     Inr (set_progress
            ((rmtree w cp (e_rmtree_left ev))
               \<lparr>spawned := spawned w @ [(pr, clone_cmd depth url cp)],
                cache := (cache (rmtree w cp (e_rmtree_left ev)))
                           (cp := e_child ev (cache (rmtree w cp (e_rmtree_left ev)) cp))\<rparr>)
            i ''cache'' 15 (Some [''stage'' \<mapsto> JStr ''cache'', ''action'' \<mapsto> JStr ''cloning'']),
          pr)"
  using assms by (simp add: cache_start_def Let_def rmtree_if)

lemma cache_start_cases:
  assumes "cache_start w i url cp depth ev = Inr (w0, pr)"
  shows "e_makedirs ev = None" and "e_which_git ev" and "e_spawn ev = Inr pr"
  using assms
  by (auto simp: cache_start_def Let_def split: option.splits if_splits sum.splits)

lemma cache_start_Inr:
  assumes "cache_start w i url cp depth ev = Inr (w0, pr)"
  shows "cache w0 cp =
           e_child ev (case cache w cp of
                         Dir m \<Rightarrow> (case e_rmtree_left ev of None \<Rightarrow> Missing | Some s \<Rightarrow> s)
                       | s \<Rightarrow> s)"
    and "unwritable w0 = unwritable w"
    and "spawned w0 = spawned w @ [(pr, clone_cmd depth url cp)]"
    and "is_canceled w0 i = is_canceled w i"
proof -
  let ?w1 = "rmtree w cp (e_rmtree_left ev)"
  let ?wa = "?w1\<lparr>spawned := spawned w @ [(pr, clone_cmd depth url cp)],
                 cache := (cache ?w1)(cp := e_child ev (cache ?w1 cp))\<rparr>"
  let ?x = "[''stage'' \<mapsto> JStr ''cache'', ''action'' \<mapsto> JStr ''cloning'']"
  have w0: "w0 = set_progress ?wa i ''cache'' 15 (Some ?x)"
    using cache_start_form [OF cache_start_cases [OF assms], of w i url cp depth] assms by simp
  show "cache w0 cp =
           e_child ev (case cache w cp of
                         Dir m \<Rightarrow> (case e_rmtree_left ev of None \<Rightarrow> Missing | Some s \<Rightarrow> s)
                       | s \<Rightarrow> s)"
    by (simp add: w0 rmtree_slot)
  show "unwritable w0 = unwritable w" by (simp add: w0)
  show "spawned w0 = spawned w @ [(pr, clone_cmd depth url cp)]" by (simp add: w0)
  have "is_canceled ?wa i = is_canceled w i"
    by (rule is_canceled_cong) simp_all
  then show "is_canceled w0 i = is_canceled w i"
    by (simp add: w0 is_canceled_set_progress)
qed

lemma cache_start_Inl:
  assumes "cache_start w i url cp depth ev = Inl w'"
  shows "spawned w' = spawned w" and "unwritable w' = unwritable w"
  using assms
  by (auto simp: cache_start_def Let_def rmtree_if split: option.splits if_splits sum.splits)

lemma cache_start_ok:
  assumes "e_makedirs ev = None" and "e_which_git ev" and "e_spawn ev = Inr pr"
  shows "\<exists>w0. cache_start w i url cp depth ev = Inr (w0, pr)"
  using assms by (simp add: cache_start_def Let_def)

text \<open>One pass through the \<^verbatim>\<open>try\<close> block spawns at most one process.\<close>

lemma reclone_frame:
  assumes "reclone w i url cp timeout depth ev = Some (w', r)"
  shows "unwritable w' = unwritable w \<and> (r = Inr cp \<or> r = Inr [])
       \<and> length (spawned w') \<le> Suc (length (spawned w))"
proof (cases "cache_start w i url cp depth ev")
  case (Inl w1)
  then have "w' = w1" and "r = Inr []" using assms by (simp_all add: reclone_def)
  then show ?thesis using cache_start_Inl [OF Inl] by simp
next
  case (Inr x)
  obtain w0 pr where x: "x = (w0, pr)" by (cases x)
  have s: "cache_start w i url cp depth ev = Inr (w0, pr)" using Inr x by simp
  let ?ex = "cache_loop i pr (e_start ev) timeout w0 (e_ticks ev)"
  have f: "cache_finish i cp ev ?ex = Some (w', r)"
    using assms s by (simp add: reclone_def)
  have "unwritable w' = unwritable w"
    using cache_finish_frame(2) [OF f] cache_start_Inr(2) [OF s] by simp
  moreover have "spawned w' = spawned w @ [(pr, clone_cmd depth url cp)]"
    using cache_finish_frame(3) [OF f] cache_start_Inr(3) [OF s] by simp
  ultimately show ?thesis using cache_finish_result [OF f] by simp
qed

lemma ensure_reclone:
  "\<not> invalid_url url \<Longrightarrow> key h url = Inr k \<Longrightarrow> refresh \<or> get_cached_path h w url = Inr None \<Longrightarrow>
   ensure_cached_repo h w i url refresh timeout depth ev =
     reclone w i url (path_join CACHE_ROOT k) timeout depth ev"
  by (auto simp: ensure_cached_repo_def Let_def)

lemma ensure_hit:
  assumes "\<not> invalid_url url" and "get_cached_path h w url = Inr (Some p)"
  shows "ensure_cached_repo h w i url False timeout depth ev =
           Some (set_progress w i ''cache'' 25
                   (Some [''stage'' \<mapsto> JStr ''cache'', ''cached'' \<mapsto> JBool True]), Inr p)"
proof -
  obtain k where k: "key h url = Inr k" and p: "p = path_join CACHE_ROOT k"
    using get_cached_path_Some [OF assms(2)] by blast
  have "p \<noteq> []" using p cache_path_nonempty by simp
  then show ?thesis using assms k by (simp add: ensure_cached_repo_def Let_def)
qed

lemma ensure_frame:
  assumes valid: "\<not> invalid_url url" and k: "key h url = Inr k"
      and ret: "ensure_cached_repo h w i url refresh timeout depth ev = Some (w', r)"
  shows "unwritable w' = unwritable w \<and> (r = Inr (path_join CACHE_ROOT k) \<or> r = Inr [])
       \<and> length (spawned w') \<le> Suc (length (spawned w))"
proof (cases "refresh \<or> get_cached_path h w url = Inr None")
  case True
  then have "reclone w i url (path_join CACHE_ROOT k) timeout depth ev = Some (w', r)"
    using ensure_reclone [OF valid k, of refresh w i timeout depth ev] ret by simp
  then show ?thesis by (rule reclone_frame)
next
  case False
  then obtain p where hit: "get_cached_path h w url = Inr (Some p)" and nr: "\<not> refresh"
    using get_cached_path_slot [OF k, of w] by (auto split: if_splits)
  have p: "p = path_join CACHE_ROOT k"
    using get_cached_path_Some [OF hit] k by auto
  show ?thesis using ensure_hit [OF valid hit, of i timeout depth ev] ret nr p by auto
qed

text \<open>
  C2.  Take a URL that passes the validation of \<^verbatim>\<open>ensure_cached_repo\<close>, and writable
  progress files.  First, a call with \<^verbatim>\<open>refresh=False\<close> made when a valid cache entry
  exists (an existing directory containing \<^verbatim>\<open>.git\<close>) writes the cache-hit record (status
  \<^verbatim>\<open>cache\<close>, percent 25, \<^verbatim>\<open>cached\<close> true) and returns the cached path without spawning a
  process, and the entry is still valid afterwards.  Second, take two successive calls with \<^verbatim>\<open>refresh=False\<close> for the URL, with any
  task ids and environments, the first of which may clone: whenever the first call has
  ended and a valid entry stands at the cache path after it, the first call has returned
  that path or the empty string, and the second call is a cache hit: it returns that
  path, writes the cache-hit record and spawns nothing, so the two calls together have
  spawned at most one process.  Third, the two calls together have also spawned at most
  one process whenever the first call spawned none.  (What is left is a first call
  whose clone leaves no valid entry: then the second call clones again.)
\<close>

theorem cache_hit_no_clone:
  assumes valid: "\<not> invalid_url url"
      and wr: "path task_id \<notin> unwritable w"
      and wr2: "path task_id2 \<notin> unwritable w"
  shows "(\<forall>p. get_cached_path sha1_hex8 w url = Inr (Some p) \<longrightarrow>
            (\<exists>w1. ensure_cached_repo sha1_hex8 w task_id url False timeout depth ev = Some (w1, Inr p)
                 \<and> get_progress w1 task_id ''status'' = Some (JStr ''cache'')
                 \<and> get_progress w1 task_id ''percent'' = Some (JInt 25)
                 \<and> get_progress w1 task_id ''cached'' = Some (JBool True)
                 \<and> spawned w1 = spawned w
                 \<and> get_cached_path sha1_hex8 w1 url = Inr (Some p)))
       \<and> (\<forall>w1 r p.
            ensure_cached_repo sha1_hex8 w task_id url False timeout depth ev = Some (w1, r)
            \<and> get_cached_path sha1_hex8 w1 url = Inr (Some p) \<longrightarrow>
            (r = Inr p \<or> r = Inr [])
            \<and> (\<exists>w2. ensure_cached_repo sha1_hex8 w1 task_id2 url False timeout2 depth2 ev2
                        = Some (w2, Inr p)
                 \<and> get_progress w2 task_id2 ''status'' = Some (JStr ''cache'')
                 \<and> get_progress w2 task_id2 ''percent'' = Some (JInt 25)
                 \<and> get_progress w2 task_id2 ''cached'' = Some (JBool True)
                 \<and> spawned w2 = spawned w1
                 \<and> length (spawned w2) \<le> Suc (length (spawned w))))
       \<and> (\<forall>w1 r w2 r2.
            ensure_cached_repo sha1_hex8 w task_id url False timeout depth ev = Some (w1, r)
            \<and> spawned w1 = spawned w
            \<and> ensure_cached_repo sha1_hex8 w1 task_id2 url False timeout2 depth2 ev2 = Some (w2, r2)
            \<longrightarrow> length (spawned w2) \<le> Suc (length (spawned w)))"
proof (intro conjI allI impI)
  fix p
  assume hit: "get_cached_path sha1_hex8 w url = Inr (Some p)"
  let ?x = "Some [''stage'' \<mapsto> JStr ''cache'', ''cached'' \<mapsto> JBool True]"
  let ?w1 = "set_progress w task_id ''cache'' 25 ?x"
  have "ensure_cached_repo sha1_hex8 w task_id url False timeout depth ev = Some (?w1, Inr p)"
    using ensure_hit [OF valid hit] .
  moreover have "get_progress ?w1 task_id ''status'' = Some (JStr ''cache'')"
    using wr by (simp add: status_after_set_progress)
  moreover have "get_progress ?w1 task_id ''percent'' = Some (JInt 25)"
    using wr by (simp add: percent_after_set_progress)
  moreover have "get_progress ?w1 task_id ''cached'' = Some (JBool True)"
    using wr by (simp add: extra_after_set_progress)
  moreover have "get_cached_path sha1_hex8 ?w1 url = Inr (Some p)"
    using hit get_cached_path_cong [of ?w1 w sha1_hex8 url] by simp
  ultimately show "\<exists>w1. ensure_cached_repo sha1_hex8 w task_id url False timeout depth ev = Some (w1, Inr p)
                 \<and> get_progress w1 task_id ''status'' = Some (JStr ''cache'')
                 \<and> get_progress w1 task_id ''percent'' = Some (JInt 25)
                 \<and> get_progress w1 task_id ''cached'' = Some (JBool True)
                 \<and> spawned w1 = spawned w
                 \<and> get_cached_path sha1_hex8 w1 url = Inr (Some p)"
    by simp
next
  fix w1 r p
  assume a: "ensure_cached_repo sha1_hex8 w task_id url False timeout depth ev = Some (w1, r)
            \<and> get_cached_path sha1_hex8 w1 url = Inr (Some p)"
  then have first: "ensure_cached_repo sha1_hex8 w task_id url False timeout depth ev = Some (w1, r)"
    and hit1: "get_cached_path sha1_hex8 w1 url = Inr (Some p)" by simp_all
  obtain k where k: "key sha1_hex8 url = Inr k" and p: "p = path_join CACHE_ROOT k"
    using get_cached_path_Some [OF hit1] by blast
  note fr = ensure_frame [OF valid k first]
  show "r = Inr p \<or> r = Inr []" using fr p by simp
next
  fix w1 r p
  assume a: "ensure_cached_repo sha1_hex8 w task_id url False timeout depth ev = Some (w1, r)
            \<and> get_cached_path sha1_hex8 w1 url = Inr (Some p)"
  then have first: "ensure_cached_repo sha1_hex8 w task_id url False timeout depth ev = Some (w1, r)"
    and hit1: "get_cached_path sha1_hex8 w1 url = Inr (Some p)" by simp_all
  obtain k where k: "key sha1_hex8 url = Inr k"
    using get_cached_path_Some [OF hit1] by blast
  note fr = ensure_frame [OF valid k first]
  have wr1: "path task_id2 \<notin> unwritable w1" using fr wr2 by simp
  let ?x = "Some [''stage'' \<mapsto> JStr ''cache'', ''cached'' \<mapsto> JBool True]"
  let ?w2 = "set_progress w1 task_id2 ''cache'' 25 ?x"
  have "ensure_cached_repo sha1_hex8 w1 task_id2 url False timeout2 depth2 ev2 = Some (?w2, Inr p)"
    using ensure_hit [OF valid hit1] .
  moreover have "get_progress ?w2 task_id2 ''status'' = Some (JStr ''cache'')"
    using wr1 by (simp add: status_after_set_progress)
  moreover have "get_progress ?w2 task_id2 ''percent'' = Some (JInt 25)"
    using wr1 by (simp add: percent_after_set_progress)
  moreover have "get_progress ?w2 task_id2 ''cached'' = Some (JBool True)"
    using wr1 by (simp add: extra_after_set_progress)
  moreover have "length (spawned ?w2) \<le> Suc (length (spawned w))" using fr by simp
  ultimately show "\<exists>w2. ensure_cached_repo sha1_hex8 w1 task_id2 url False timeout2 depth2 ev2
                        = Some (w2, Inr p)
                 \<and> get_progress w2 task_id2 ''status'' = Some (JStr ''cache'')
                 \<and> get_progress w2 task_id2 ''percent'' = Some (JInt 25)
                 \<and> get_progress w2 task_id2 ''cached'' = Some (JBool True)
                 \<and> spawned w2 = spawned w1
                 \<and> length (spawned w2) \<le> Suc (length (spawned w))"
    by simp
next
  fix w1 r w2 r2
  assume a: "ensure_cached_repo sha1_hex8 w task_id url False timeout depth ev = Some (w1, r)
            \<and> spawned w1 = spawned w
            \<and> ensure_cached_repo sha1_hex8 w1 task_id2 url False timeout2 depth2 ev2 = Some (w2, r2)"
  then have same: "spawned w1 = spawned w"
    and second: "ensure_cached_repo sha1_hex8 w1 task_id2 url False timeout2 depth2 ev2 = Some (w2, r2)"
    by simp_all
  show "length (spawned w2) \<le> Suc (length (spawned w))"
  proof (cases "key sha1_hex8 url")
    case (Inl e)
    then have "w2 = w1" using second valid by (simp add: ensure_cached_repo_def)
    then show ?thesis using same by simp
  next
    case (Inr k)
    show ?thesis using ensure_frame [OF valid Inr second] same by simp
  qed
qed

lemma key_widgets: "key sha_stub url_widgets = Inr ''widgets-1d8341cf''"
  by (simp add: key_def encode_utf8_def sha_stub_def url_widgets_def Let_def strip_git_def
      last_component_def rstrip_slash_def suffix_to_prefix safe_chars_def is_alnum_def)

lemma key_gitlab: "key sha_stub url_gitlab = Inr ''widgets-1d8341cf''"
  by (simp add: key_def encode_utf8_def sha_stub_def url_gitlab_def Let_def strip_git_def
      last_component_def rstrip_slash_def suffix_to_prefix safe_chars_def is_alnum_def)

lemma cache_path_widgets: "path_join CACHE_ROOT ''widgets-1d8341cf'' = ''outputs/cache/widgets-1d8341cf''"
  by (simp add: path_join_def CACHE_ROOT_def)

lemma cached_slot_widgets:
  "get_cached_path sha_stub w url_widgets =
     Inr (if cache w ''outputs/cache/widgets-1d8341cf'' = Dir True
          then Some ''outputs/cache/widgets-1d8341cf'' else None)"
  using get_cached_path_slot [OF key_widgets, of w] by (simp add: cache_path_widgets)

lemma cached_widgets:
  "get_cached_path sha_stub world_cached url_widgets = Inr (Some ''outputs/cache/widgets-1d8341cf'')"
  by (simp add: cached_slot_widgets world_cached_def)

lemma cached_gitlab:
  "get_cached_path sha_stub world_cached url_gitlab = Inr (Some ''outputs/cache/widgets-1d8341cf'')"
  using get_cached_path_slot [OF key_gitlab, of world_cached]
  by (simp add: cache_path_widgets world_cached_def)

lemma invalid_gitlab: "invalid_url url_gitlab"
  by (simp add: invalid_url_def url_gitlab_def)

lemma not_cached_world0: "get_cached_path sha_stub world0 url_widgets = Inr None"
  by (simp add: cached_slot_widgets world0_def)

lemma not_canceled_world_cached: "\<not> is_canceled world_cached i"
  using is_canceled_cong [of world_cached world0 i] not_canceled_world0 [of i]
  by (simp add: world_cached_def)

lemma cache_iteration_line:
  "\<not> is_canceled w i \<Longrightarrow> t_ext t = None \<Longrightarrow> \<not> (t_now t - st > of_int mx) \<Longrightarrow>
   t_read t = Readline l \<Longrightarrow> l \<noteq> [] \<Longrightarrow> cache_iteration i pr st mx w t = Running w"
  by (simp add: cache_iteration_def apply_ext_def)

lemma cache_iteration_exit:
  "\<not> is_canceled w i \<Longrightarrow> t_ext t = None \<Longrightarrow> \<not> (t_now t - st > of_int mx) \<Longrightarrow>
   t_read t = Readline [] \<Longrightarrow> t_poll t = Some code \<Longrightarrow>
   cache_iteration i pr st mx w t = Broke w code"
  by (simp add: cache_iteration_def apply_ext_def)

lemma cache_iteration_timeout:
  "\<not> is_canceled w i \<Longrightarrow> t_ext t = None \<Longrightarrow> t_now t - st > of_int mx \<Longrightarrow>
   cache_iteration i pr st mx w t =
     Returned (terminate_kill
       (set_progress w i ''timeout'' 100 (Some [''message'' \<mapsto> JStr ''Cache clone timed out''])) pr) []"
  by (simp add: cache_iteration_def apply_ext_def)

text \<open>The loop of the cache on the concrete runs: the child ends, or the deadline passes.\<close>

lemma exit_loop_cache:
  assumes "\<not> is_canceled w0 ''t1''"
  shows "cache_loop ''t1'' 4242 0 180 w0
           [tick_line 1 ''Receiving objects:  10% (1/10)\<newline>'', tick_exit 2 code] = Broke w0 code"
proof -
  have i1: "cache_iteration ''t1'' 4242 0 180 w0 (tick_line 1 ''Receiving objects:  10% (1/10)\<newline>'')
            = Running w0"
    by (rule cache_iteration_line [where l = "''Receiving objects:  10% (1/10)\<newline>''", OF assms])
       (simp_all add: tick_line_def)
  have i2: "cache_iteration ''t1'' 4242 0 180 w0 (tick_exit 2 code) = Broke w0 code"
    by (rule cache_iteration_exit [OF assms]) (simp_all add: tick_exit_def)
  show ?thesis using i1 i2 by simp
qed

lemma timeout_loop_cache:
  assumes "\<not> is_canceled w0 ''t1''"
  shows "cache_loop ''t1'' 4242 0 180 w0
           [tick_line 1 ''Receiving objects:  10% (1/10)\<newline>'',
            tick_line 181 ''Receiving objects:  20% (2/10)\<newline>''] =
         Returned (terminate_kill
           (set_progress w0 ''t1'' ''timeout'' 100 (Some [''message'' \<mapsto> JStr ''Cache clone timed out'']))
           4242) []"
proof -
  have i1: "cache_iteration ''t1'' 4242 0 180 w0 (tick_line 1 ''Receiving objects:  10% (1/10)\<newline>'')
            = Running w0"
    by (rule cache_iteration_line [where l = "''Receiving objects:  10% (1/10)\<newline>''", OF assms])
       (simp_all add: tick_line_def)
  have i2: "cache_iteration ''t1'' 4242 0 180 w0 (tick_line 181 ''Receiving objects:  20% (2/10)\<newline>'') =
      Returned (terminate_kill
       (set_progress w0 ''t1'' ''timeout'' 100 (Some [''message'' \<mapsto> JStr ''Cache clone timed out''])) 4242) []"
    by (rule cache_iteration_timeout [OF assms]) (simp_all add: tick_line_def)
  show ?thesis using i1 i2 by simp
qed

text \<open>
  A call for \<open>widgets\<close> that finds nothing at the cache path and whose child ends with
  code \<open>c\<close>: it spawns one process and leaves what the child has made.
\<close>

lemma exit_run_cache:
  assumes nc: "\<not> is_canceled w ''t1''"
      and miss: "cache w ''outputs/cache/widgets-1d8341cf'' = Missing"
  shows "\<exists>w'. ensure_cached_repo sha_stub w ''t1'' url_widgets False 180 1 (env_exit c) =
                Some (w', Inr (if c = 0 then ''outputs/cache/widgets-1d8341cf'' else []))
            \<and> cache w' ''outputs/cache/widgets-1d8341cf'' = (if c = 0 then Dir True else Missing)
            \<and> spawned w' =
                spawned w @ [(4242, clone_cmd 1 url_widgets ''outputs/cache/widgets-1d8341cf'')]
            \<and> \<not> is_canceled w' ''t1''"
proof -
  let ?cp = "''outputs/cache/widgets-1d8341cf''"
  have nohit: "False \<or> get_cached_path sha_stub w url_widgets = Inr None"
    using miss by (simp add: cached_slot_widgets)
  have e: "ensure_cached_repo sha_stub w ''t1'' url_widgets False 180 1 (env_exit c) =
           reclone w ''t1'' url_widgets ?cp 180 1 (env_exit c)"
    using ensure_reclone [OF not_invalid_widgets key_widgets nohit] by (simp add: cache_path_widgets)
  have ev: "e_makedirs (env_exit c) = None" "e_which_git (env_exit c)" "e_spawn (env_exit c) = Inr 4242"
    by (simp_all add: env_exit_def)
  obtain w0 where s: "cache_start w ''t1'' url_widgets ?cp 1 (env_exit c) = Inr (w0, 4242)"
    using cache_start_ok [OF ev] by blast
  have nc0: "\<not> is_canceled w0 ''t1''" using cache_start_Inr(4) [OF s] nc by simp
  have c0: "cache w0 ?cp = (if c = 0 then Dir True else Missing)"
    using cache_start_Inr(1) [OF s] miss by (simp add: env_exit_def git_child_def)
  have sp0: "spawned w0 = spawned w @ [(4242, clone_cmd 1 url_widgets ?cp)]"
    using cache_start_Inr(3) [OF s] .
  have l: "cache_loop ''t1'' 4242 (e_start (env_exit c)) 180 w0 (e_ticks (env_exit c)) = Broke w0 c"
    using exit_loop_cache [OF nc0, of c] by (simp add: env_exit_def)
  have r: "reclone w ''t1'' url_widgets ?cp 180 1 (env_exit c) = cache_finish ''t1'' ?cp (env_exit c) (Broke w0 c)"
    using s l by (simp add: reclone_def)
  show ?thesis
  proof (cases "c = 0")
    case True
    let ?w' = "set_progress w0 ''t1'' ''cache'' 25 (Some [''stage'' \<mapsto> JStr ''cache''])"
    have "ensure_cached_repo sha_stub w ''t1'' url_widgets False 180 1 (env_exit c) = Some (?w', Inr ?cp)"
      using e r True by (simp add: cache_finish_def)
    moreover have "\<not> is_canceled ?w' ''t1''" using nc0 by (simp add: is_canceled_set_progress)
    ultimately show ?thesis using c0 sp0 True by simp
  next
    case False
    let ?x = "[''stage'' \<mapsto> JStr ''cache'',
               ''message'' \<mapsto> JStr (''git clone failed: '' @ str_int c),
               ''stderr'' \<mapsto> JList (map JStr (last5 (splitlines [])))]"
    let ?w' = "set_progress w0 ''t1'' ''error'' 100 (Some ?x)"
    have "ensure_cached_repo sha_stub w ''t1'' url_widgets False 180 1 (env_exit c) = Some (?w', Inr [])"
      using e r False by (simp add: cache_finish_def env_exit_def)
    moreover have "\<not> is_canceled ?w' ''t1''" using nc0 by (simp add: is_canceled_set_progress)
    ultimately show ?thesis using c0 sp0 False by simp
  qed
qed

theorem cache_hit_no_clone_witness:
  "(\<exists>w1 w2. ensure_cached_repo sha_stub world_cached ''t1'' url_widgets False 180 1 env_nogit
               = Some (w1, Inr ''outputs/cache/widgets-1d8341cf'')
        \<and> get_progress w1 ''t1'' ''percent'' = Some (JInt 25)
        \<and> spawned w1 = []
        \<and> ensure_cached_repo sha_stub w1 ''t2'' url_widgets False 180 1 env_nogit
               = Some (w2, Inr ''outputs/cache/widgets-1d8341cf'')
        \<and> spawned w2 = [])
 \<and> (\<exists>w1 w2. ensure_cached_repo sha_stub world0 ''t1'' url_widgets False 180 1 (env_exit 0)
               = Some (w1, Inr ''outputs/cache/widgets-1d8341cf'')
        \<and> length (spawned w1) = 1
        \<and> ensure_cached_repo sha_stub w1 ''t2'' url_widgets False 180 1 env_nogit
               = Some (w2, Inr ''outputs/cache/widgets-1d8341cf'')
        \<and> get_progress w2 ''t2'' ''percent'' = Some (JInt 25)
        \<and> get_progress w2 ''t2'' ''cached'' = Some (JBool True)
        \<and> length (spawned w2) = 1)"
proof -
  let ?cp = "''outputs/cache/widgets-1d8341cf''"
  have wc: "path ''t1'' \<notin> unwritable world_cached" "path ''t2'' \<notin> unwritable world_cached"
    by (simp_all add: world_cached_def world0_def)
  have w0: "path ''t1'' \<notin> unwritable world0" "path ''t2'' \<notin> unwritable world0"
    by (simp_all add: world0_def)
  note hit = cache_hit_no_clone [OF not_invalid_widgets wc, of sha_stub 180 1 env_nogit 180 1 env_nogit]
  note two = cache_hit_no_clone [OF not_invalid_widgets w0, of sha_stub 180 1 "env_exit 0" 180 1 env_nogit]
  from hit cached_widgets obtain w1 where
      a1: "ensure_cached_repo sha_stub world_cached ''t1'' url_widgets False 180 1 env_nogit = Some (w1, Inr ?cp)"
      and a2: "get_progress w1 ''t1'' ''percent'' = Some (JInt 25)"
      and a3: "spawned w1 = spawned world_cached"
      and a4: "get_cached_path sha_stub w1 url_widgets = Inr (Some ?cp)"
    by blast
  from hit a1 a4 obtain w2 where
      a5: "ensure_cached_repo sha_stub w1 ''t2'' url_widgets False 180 1 env_nogit = Some (w2, Inr ?cp)"
      and a6: "spawned w2 = spawned w1"
    by blast
  have s0: "spawned world_cached = []" by (simp add: world_cached_def world0_def)
  have first: "\<exists>w1 w2. ensure_cached_repo sha_stub world_cached ''t1'' url_widgets False 180 1 env_nogit
               = Some (w1, Inr ?cp)
        \<and> get_progress w1 ''t1'' ''percent'' = Some (JInt 25)
        \<and> spawned w1 = []
        \<and> ensure_cached_repo sha_stub w1 ''t2'' url_widgets False 180 1 env_nogit = Some (w2, Inr ?cp)
        \<and> spawned w2 = []"
    using a1 a2 a3 a5 a6 s0 by auto
  have m0: "cache world0 ?cp = Missing" by (simp add: world0_def)
  from exit_run_cache [OF not_canceled_world0 m0, of 0] obtain v1 where
      b1: "ensure_cached_repo sha_stub world0 ''t1'' url_widgets False 180 1 (env_exit 0) = Some (v1, Inr ?cp)"
      and b2: "cache v1 ?cp = Dir True"
      and b3: "spawned v1 = spawned world0 @ [(4242, clone_cmd 1 url_widgets ?cp)]"
    by auto
  have b4: "get_cached_path sha_stub v1 url_widgets = Inr (Some ?cp)"
    using b2 by (simp add: cached_slot_widgets)
  from two b1 b4 obtain v2 where
      b5: "ensure_cached_repo sha_stub v1 ''t2'' url_widgets False 180 1 env_nogit = Some (v2, Inr ?cp)"
      and b6: "get_progress v2 ''t2'' ''percent'' = Some (JInt 25)"
      and b7: "get_progress v2 ''t2'' ''cached'' = Some (JBool True)"
      and b8: "spawned v2 = spawned v1"
    by blast
  have b9: "length (spawned v1) = 1" using b3 by (simp add: world0_def)
  have second: "\<exists>w1 w2. ensure_cached_repo sha_stub world0 ''t1'' url_widgets False 180 1 (env_exit 0)
               = Some (w1, Inr ?cp)
        \<and> length (spawned w1) = 1
        \<and> ensure_cached_repo sha_stub w1 ''t2'' url_widgets False 180 1 env_nogit = Some (w2, Inr ?cp)
        \<and> get_progress w2 ''t2'' ''percent'' = Some (JInt 25)
        \<and> get_progress w2 ''t2'' ''cached'' = Some (JBool True)
        \<and> length (spawned w2) = 1"
    using b1 b5 b6 b7 b8 b9 by auto
  from first second show ?thesis by blast
qed

text \<open>
  C2 as stated fails in two ways.  For a URL that does not pass validation the URL check
  comes before the cache lookup, so even with a valid directory at the URL's cache path
  the call writes an error record and returns the empty string.  And two successive
  calls perform two clones when the first clone fails: with a child that ends with code
  128 and leaves nothing, the first call returns the empty string, the second finds no
  entry and spawns a second process.
\<close>

theorem cache_hit_counterexample:
  "get_cached_path sha_stub world_cached url_gitlab = Inr (Some ''outputs/cache/widgets-1d8341cf'')
   \<and> returned (ensure_cached_repo sha_stub world_cached ''t1'' url_gitlab False 180 1 env_nogit)
       = Some (Inr [])
   \<and> returned (ensure_cached_repo sha_stub world0 ''t1'' url_widgets False 180 1 (env_exit 128))
       = Some (Inr [])
   \<and> spawn_count (ensure_cached_repo sha_stub world0 ''t1'' url_widgets False 180 1 (env_exit 128))
       = Some 1
   \<and> spawn_count (ensure_twice sha_stub world0 ''t1'' url_widgets 180 1 (env_exit 128) (env_exit 128))
       = Some 2"
proof -
  let ?cp = "''outputs/cache/widgets-1d8341cf''"
  have m0: "cache world0 ?cp = Missing" by (simp add: world0_def)
  from exit_run_cache [OF not_canceled_world0 m0, of 128] obtain w1 where
      a1: "ensure_cached_repo sha_stub world0 ''t1'' url_widgets False 180 1 (env_exit 128) = Some (w1, Inr [])"
      and a2: "cache w1 ?cp = Missing"
      and a3: "spawned w1 = spawned world0 @ [(4242, clone_cmd 1 url_widgets ?cp)]"
      and a4: "\<not> is_canceled w1 ''t1''"
    by auto
  from exit_run_cache [OF a4 a2, of 128] obtain w2 where
      b1: "ensure_cached_repo sha_stub w1 ''t1'' url_widgets False 180 1 (env_exit 128) = Some (w2, Inr [])"
      and b3: "spawned w2 = spawned w1 @ [(4242, clone_cmd 1 url_widgets ?cp)]"
    by auto
  have "returned (ensure_cached_repo sha_stub world_cached ''t1'' url_gitlab False 180 1 env_nogit)
       = Some (Inr [])"
    by (simp add: ensure_cached_repo_def invalid_gitlab returned_def)
  moreover have "spawn_count (ensure_twice sha_stub world0 ''t1'' url_widgets 180 1 (env_exit 128) (env_exit 128))
       = Some 2"
    using a1 a3 b1 b3 by (simp add: ensure_twice_def spawn_count_def world0_def)
  moreover have "spawn_count (ensure_cached_repo sha_stub world0 ''t1'' url_widgets False 180 1 (env_exit 128))
       = Some 1"
    using a1 a3 by (simp add: spawn_count_def world0_def)
  ultimately show ?thesis using cached_gitlab a1 by (simp add: returned_def)
qed

text \<open>
  C1.  Take a call of \<^verbatim>\<open>ensure_cached_repo\<close> that has spawned the clone (valid URL, no
  cache hit taken, directory creation, binary lookup and spawn succeeded) and returns
  the empty string, for whichever reason: timeout, cancellation, a non-zero exit code
  or an exception in the loop.  It has spawned exactly that one process, and the cache
  path holds what the child has made of the state it found there, which is the state
  the clearing step left: an existing directory is removed before the spawn (or, when
  errors were ignored, is what \<^verbatim>\<open>rmtree\<close> left of it), anything else is untouched, and
  nothing is removed after the spawn.  So \<^verbatim>\<open>get_cached_path(url)\<close> returns nothing if and
  only if the child has not left a directory containing \<^verbatim>\<open>.git\<close>.
\<close>

theorem failed_clone_leaves_child_state:
  assumes valid: "\<not> invalid_url url"
      and k: "key sha1_hex8 url = Inr k"
      and miss: "refresh \<or> get_cached_path sha1_hex8 w url = Inr None"
      and mk: "e_makedirs ev = None" and git: "e_which_git ev" and sp: "e_spawn ev = Inr proc"
      and ret: "ensure_cached_repo sha1_hex8 w task_id url refresh timeout depth ev = Some (w', Inr [])"
  shows "spawned w' = spawned w @ [(proc, clone_cmd depth url (path_join CACHE_ROOT k))]
       \<and> cache w' (path_join CACHE_ROOT k) =
           e_child ev (case cache w (path_join CACHE_ROOT k) of
                         Dir m \<Rightarrow> (case e_rmtree_left ev of None \<Rightarrow> Missing | Some s \<Rightarrow> s)
                       | s \<Rightarrow> s)
       \<and> get_cached_path sha1_hex8 w' url =
           Inr (if e_child ev (case cache w (path_join CACHE_ROOT k) of
                                 Dir m \<Rightarrow> (case e_rmtree_left ev of None \<Rightarrow> Missing | Some s \<Rightarrow> s)
                               | s \<Rightarrow> s) = Dir True
                then Some (path_join CACHE_ROOT k) else None)"
proof -
  let ?cp = "path_join CACHE_ROOT k"
  obtain w0 where s: "cache_start w task_id url ?cp depth ev = Inr (w0, proc)"
    using cache_start_ok [OF mk git sp] by blast
  have "reclone w task_id url ?cp timeout depth ev = Some (w', Inr [])"
    using ensure_reclone [OF valid k miss] ret by simp
  then have f: "cache_finish task_id ?cp ev
                  (cache_loop task_id proc (e_start ev) timeout w0 (e_ticks ev)) = Some (w', Inr [])"
    using s by (simp add: reclone_def)
  have c: "cache w' = cache w0" using cache_finish_frame(1) [OF f] by simp
  have "spawned w' = spawned w0" using cache_finish_frame(3) [OF f] by simp
  then have a: "spawned w' = spawned w @ [(proc, clone_cmd depth url ?cp)]"
    using cache_start_Inr(3) [OF s] by simp
  have b: "cache w' ?cp =
           e_child ev (case cache w ?cp of
                         Dir m \<Rightarrow> (case e_rmtree_left ev of None \<Rightarrow> Missing | Some s \<Rightarrow> s)
                       | s \<Rightarrow> s)"
    using c cache_start_Inr(1) [OF s] by simp
  show ?thesis using a b get_cached_path_slot [OF k, of w'] by simp
qed

text \<open>
  A refresh of a valid entry whose child is stopped by the timeout after it has made
  the directory, but not yet \<^verbatim>\<open>.git\<close>: the old entry is gone.
\<close>

theorem failed_clone_leaves_child_state_witness:
  "\<exists>w'. ensure_cached_repo sha_stub world_cached ''t1'' url_widgets True 180 1
           (env_timeout\<lparr>e_child := git_child (Dir False)\<rparr>) = Some (w', Inr [])
       \<and> spawned w' = [(4242, clone_cmd 1 url_widgets ''outputs/cache/widgets-1d8341cf'')]
       \<and> cache w' ''outputs/cache/widgets-1d8341cf'' = Dir False
       \<and> get_cached_path sha_stub w' url_widgets = Inr None"
proof -
  let ?ev = "env_timeout\<lparr>e_child := git_child (Dir False)\<rparr>"
  let ?cp = "''outputs/cache/widgets-1d8341cf''"
  have ev: "e_makedirs ?ev = None" "e_which_git ?ev" "e_spawn ?ev = Inr 4242"
    by (simp_all add: env_timeout_def)
  have m: "True \<or> get_cached_path sha_stub world_cached url_widgets = Inr None" by simp
  obtain w0 where s: "cache_start world_cached ''t1'' url_widgets ?cp 1 ?ev = Inr (w0, 4242)"
    using cache_start_ok [OF ev] by blast
  have nc0: "\<not> is_canceled w0 ''t1''"
    using cache_start_Inr(4) [OF s] not_canceled_world_cached by simp
  let ?w' = "terminate_kill
       (set_progress w0 ''t1'' ''timeout'' 100 (Some [''message'' \<mapsto> JStr ''Cache clone timed out''])) 4242"
  have l: "cache_loop ''t1'' 4242 (e_start ?ev) 180 w0 (e_ticks ?ev) = Returned ?w' []"
    using timeout_loop_cache [OF nc0] by (simp add: env_timeout_def)
  have "reclone world_cached ''t1'' url_widgets ?cp 180 1 ?ev = Some (?w', Inr [])"
    using s l by (simp add: reclone_def cache_finish_def)
  then have r: "ensure_cached_repo sha_stub world_cached ''t1'' url_widgets True 180 1 ?ev = Some (?w', Inr [])"
    using ensure_reclone [OF not_invalid_widgets key_widgets m, of "''t1''" 180 1 ?ev]
    by (simp add: cache_path_widgets)
  from failed_clone_leaves_child_state [OF not_invalid_widgets key_widgets m ev r]
  have "spawned ?w' = [(4242, clone_cmd 1 url_widgets ?cp)]
      \<and> cache ?w' ?cp = Dir False
      \<and> get_cached_path sha_stub ?w' url_widgets = Inr None"
    by (simp add: cache_path_widgets world_cached_def world0_def env_timeout_def git_child_def)
  with r show ?thesis by blast
qed

text \<open>
  C1 as stated fails: nothing removes a partial clone.  A child that has created the
  directory and its \<^verbatim>\<open>.git\<close> entry and is then stopped by the timeout leaves a cache
  entry that passes the validity check, although the call returned the empty string.
\<close>

theorem failed_clone_valid_entry_counterexample:
  "returned (ensure_cached_repo sha_stub world0 ''t1'' url_widgets False 180 1 env_timeout)
     = Some (Inr [])
   \<and> cached_path_after sha_stub url_widgets
        (ensure_cached_repo sha_stub world0 ''t1'' url_widgets False 180 1 env_timeout)
       = Some (Inr (Some ''outputs/cache/widgets-1d8341cf''))"
proof -
  let ?cp = "''outputs/cache/widgets-1d8341cf''"
  have ev: "e_makedirs env_timeout = None" "e_which_git env_timeout" "e_spawn env_timeout = Inr 4242"
    by (simp_all add: env_timeout_def)
  have m: "False \<or> get_cached_path sha_stub world0 url_widgets = Inr None"
    using not_cached_world0 by simp
  obtain w0 where s: "cache_start world0 ''t1'' url_widgets ?cp 1 env_timeout = Inr (w0, 4242)"
    using cache_start_ok [OF ev] by blast
  have nc0: "\<not> is_canceled w0 ''t1''"
    using cache_start_Inr(4) [OF s] not_canceled_world0 by simp
  have c0: "cache w0 ?cp = Dir True"
    using cache_start_Inr(1) [OF s] by (simp add: world0_def env_timeout_def git_child_def)
  let ?w' = "terminate_kill
       (set_progress w0 ''t1'' ''timeout'' 100 (Some [''message'' \<mapsto> JStr ''Cache clone timed out''])) 4242"
  have l: "cache_loop ''t1'' 4242 (e_start env_timeout) 180 w0 (e_ticks env_timeout) = Returned ?w' []"
    using timeout_loop_cache [OF nc0] by (simp add: env_timeout_def)
  have "reclone world0 ''t1'' url_widgets ?cp 180 1 env_timeout = Some (?w', Inr [])"
    using s l by (simp add: reclone_def cache_finish_def)
  then have r: "ensure_cached_repo sha_stub world0 ''t1'' url_widgets False 180 1 env_timeout = Some (?w', Inr [])"
    using ensure_reclone [OF not_invalid_widgets key_widgets m, of "''t1''" 180 1 env_timeout]
    by (simp add: cache_path_widgets)
  have "get_cached_path sha_stub ?w' url_widgets = Inr (Some ?cp)"
    using c0 by (simp add: cached_slot_widgets)
  then show ?thesis using r by (simp add: returned_def cached_path_after_def)
qed


section \<open>Failures become error records\<close>

lemma error_published_set_progress:
  assumes "path i \<notin> unwritable w" and "e ''status'' = None" and "e ''percent'' = None"
      and "e ''message'' = Some (JStr m)"
  shows "error_published (set_progress w i ''error'' 100 (Some e)) i"
  using assms
  by (simp add: error_published_def status_after_set_progress percent_after_set_progress
      extra_after_set_progress)

lemma error_published_clone_except:
  "path i \<notin> unwritable w \<Longrightarrow> error_published (clone_except w i e) i"
  by (cases e) (simp_all add: clone_except_def error_published_set_progress)

lemma error_published_cache_except:
  "path i \<notin> unwritable w \<Longrightarrow> error_published (cache_except w i e) i"
  by (cases e) (simp_all add: cache_except_def error_published_set_progress)

lemma clone_start_Inl_published:
  assumes "clone_start w i url depth ev = Inl w'" and "path i \<notin> unwritable w"
  shows "error_published w' i"
  using assms
  by (auto simp: clone_start_def Let_def error_published_set_progress error_published_clone_except
      split: if_splits sum.splits)

lemma clone_early_error:
  assumes wr: "path i \<notin> unwritable w"
      and cause: "invalid_url url \<or> isl (e_mkdtemp ev) \<or> isl (e_spawn ev)"
  shows "\<exists>w'. interruptible_clone w i url mx depth ev = Some (w', []) \<and> error_published w' i"
proof -
  have "\<exists>w'. clone_start w i url depth ev = Inl w'"
    using cause by (auto simp: clone_start_def Let_def isl_def split: sum.splits)
  then obtain w' where s: "clone_start w i url depth ev = Inl w'" by blast
  then have "interruptible_clone w i url mx depth ev = Some (w', [])"
    by (simp add: interruptible_clone_def)
  then show ?thesis using clone_start_Inl_published [OF s wr] by blast
qed

lemma clone_loop_unwritable_Raised:
  "clone_loop i pr st mx w ts = Raised w1 e \<Longrightarrow> unwritable w1 = unwritable w"
  using clone_loop_frame(1) [of i pr st mx w ts] by simp

lemma clone_raise_error:
  assumes wr: "path i \<notin> unwritable w"
      and s: "clone_start w i url depth ev = Inr (w0, pr, rp)"
      and l: "clone_loop i pr (e_start ev) mx w0 (e_ticks ev) = Raised w1 e"
  shows "\<exists>w'. interruptible_clone w i url mx depth ev = Some (w', []) \<and> error_published w' i"
proof -
  have wr1: "path i \<notin> unwritable (PROCS_pop w1 i)"
    using wr clone_start_unwritable [OF s] clone_loop_unwritable_Raised [OF l] by simp
  have "interruptible_clone w i url mx depth ev = Some (clone_except (PROCS_pop w1 i) i e, [])"
    using interruptible_clone_started [OF s] l by (simp add: clone_finish_def)
  then show ?thesis using error_published_clone_except [OF wr1] by blast
qed

lemma cache_start_Inl_published:
  assumes "cache_start w i url cp depth ev = Inl w'" and "path i \<notin> unwritable w"
  shows "error_published w' i"
proof -
  let ?w = "rmtree w cp (e_rmtree_left ev)"
  have wr: "path i \<notin> unwritable ?w" using assms(2) by simp
  show ?thesis
    using assms(1) error_published_cache_except [OF wr]
      error_published_set_progress [OF wr, of "[''stage'' \<mapsto> JStr ''cache'', ''message'' \<mapsto> JStr ''git not found in PATH'']"
        "''git not found in PATH''"]
    by (auto simp: cache_start_def Let_def rmtree_if split: option.splits if_splits sum.splits)
qed

lemma cache_early_error:
  assumes wr: "path i \<notin> unwritable w"
      and cause: "invalid_url url \<or>
                  ((\<exists>k. key h url = Inr k) \<and> (refresh \<or> get_cached_path h w url = Inr None)
                   \<and> (e_makedirs ev \<noteq> None \<or> \<not> e_which_git ev \<or> isl (e_spawn ev)))"
  shows "\<exists>w'. ensure_cached_repo h w i url refresh timeout depth ev = Some (w', Inr [])
             \<and> error_published w' i"
proof (cases "invalid_url url")
  case True
  then have "ensure_cached_repo h w i url refresh timeout depth ev =
      Some (set_progress w i ''error'' 100
              (Some [''stage'' \<mapsto> JStr ''cache'', ''message'' \<mapsto> JStr ''Invalid GitHub URL'']), Inr [])"
    by (simp add: ensure_cached_repo_def)
  then show ?thesis using error_published_set_progress [OF wr] by simp
next
  case False
  from False cause obtain k where k: "key h url = Inr k"
    and miss: "refresh \<or> get_cached_path h w url = Inr None"
    and c: "e_makedirs ev \<noteq> None \<or> \<not> e_which_git ev \<or> isl (e_spawn ev)" by auto
  let ?cp = "path_join CACHE_ROOT k"
  have "\<exists>w'. cache_start w i url ?cp depth ev = Inl w'"
    using c by (auto simp: cache_start_def Let_def isl_def split: option.splits sum.splits)
  then obtain w' where s: "cache_start w i url ?cp depth ev = Inl w'" by blast
  then have "ensure_cached_repo h w i url refresh timeout depth ev = Some (w', Inr [])"
    using ensure_reclone [OF False k miss] by (simp add: reclone_def)
  then show ?thesis using cache_start_Inl_published [OF s wr] by blast
qed

lemma cache_loop_unwritable_Raised:
  "cache_loop i pr st mx w ts = Raised w1 e \<Longrightarrow> unwritable w1 = unwritable w"
  using cache_loop_frame(1) [of i pr st mx w ts] by simp

lemma cache_raise_error:
  assumes wr: "path i \<notin> unwritable w"
      and valid: "\<not> invalid_url url" and k: "key h url = Inr k"
      and miss: "refresh \<or> get_cached_path h w url = Inr None"
      and s: "cache_start w i url (path_join CACHE_ROOT k) depth ev = Inr (w0, pr)"
      and l: "cache_loop i pr (e_start ev) timeout w0 (e_ticks ev) = Raised w1 e"
  shows "\<exists>w'. ensure_cached_repo h w i url refresh timeout depth ev = Some (w', Inr [])
             \<and> error_published w' i"
proof -
  have wr1: "path i \<notin> unwritable w1"
    using wr cache_start_Inr(2) [OF s] cache_loop_unwritable_Raised [OF l] by simp
  have "ensure_cached_repo h w i url refresh timeout depth ev = Some (cache_except w1 i e, Inr [])"
    using ensure_reclone [OF valid k miss] s l by (simp add: reclone_def cache_finish_def)
  then show ?thesis using error_published_cache_except [OF wr1] by blast
qed

text \<open>
  The failures that do end in an error record.  Each of them returns the empty string
  after writing a terminal record with status \<^verbatim>\<open>error\<close>, percent 100 and a message.  For
  \<^verbatim>\<open>interruptible_clone\<close>: an empty URL or one without the hosting domain, an exception of
  \<^verbatim>\<open>mkdtemp\<close>, an exception of the spawn (the missing binary is its
  \<^verbatim>\<open>FileNotFoundError\<close>), and an exception raised inside the supervising loop.  For
  \<^verbatim>\<open>ensure_cached_repo\<close>: an invalid URL and, when the cache key can be computed and no
  cache hit is taken, an exception of \<^verbatim>\<open>makedirs\<close>, a missing binary, an exception of the
  spawn, and an exception raised inside the loop.  The progress file is assumed
  writable.
\<close>

lemma listed_failures_write_error_records:
  assumes "path task_id \<notin> unwritable w"
  shows "(invalid_url url \<or> isl (e_mkdtemp ev) \<or> isl (e_spawn ev) \<longrightarrow>
            (\<exists>w'. interruptible_clone w task_id url max_seconds depth ev = Some (w', [])
                 \<and> error_published w' task_id))
       \<and> (\<forall>w0 proc repo_path w1 e.
            clone_start w task_id url depth ev = Inr (w0, proc, repo_path)
            \<and> clone_loop task_id proc (e_start ev) max_seconds w0 (e_ticks ev) = Raised w1 e \<longrightarrow>
            (\<exists>w'. interruptible_clone w task_id url max_seconds depth ev = Some (w', [])
                 \<and> error_published w' task_id))
       \<and> (invalid_url url \<or>
            ((\<exists>k. key sha1_hex8 url = Inr k)
             \<and> (refresh \<or> get_cached_path sha1_hex8 w url = Inr None)
             \<and> (e_makedirs ev \<noteq> None \<or> \<not> e_which_git ev \<or> isl (e_spawn ev))) \<longrightarrow>
            (\<exists>w'. ensure_cached_repo sha1_hex8 w task_id url refresh max_seconds depth ev
                     = Some (w', Inr [])
                 \<and> error_published w' task_id))
       \<and> (\<forall>k w0 proc w1 e.
            \<not> invalid_url url \<and> key sha1_hex8 url = Inr k
            \<and> (refresh \<or> get_cached_path sha1_hex8 w url = Inr None)
            \<and> cache_start w task_id url (path_join CACHE_ROOT k) depth ev = Inr (w0, proc)
            \<and> cache_loop task_id proc (e_start ev) max_seconds w0 (e_ticks ev) = Raised w1 e \<longrightarrow>
            (\<exists>w'. ensure_cached_repo sha1_hex8 w task_id url refresh max_seconds depth ev
                     = Some (w', Inr [])
                 \<and> error_published w' task_id))"
proof (intro conjI allI impI)
  assume "invalid_url url \<or> isl (e_mkdtemp ev) \<or> isl (e_spawn ev)"
  then show "\<exists>w'. interruptible_clone w task_id url max_seconds depth ev = Some (w', [])
                 \<and> error_published w' task_id"
    using clone_early_error [OF assms] by blast
next
  fix w0 proc repo_path w1 e
  assume "clone_start w task_id url depth ev = Inr (w0, proc, repo_path)
            \<and> clone_loop task_id proc (e_start ev) max_seconds w0 (e_ticks ev) = Raised w1 e"
  then show "\<exists>w'. interruptible_clone w task_id url max_seconds depth ev = Some (w', [])
                 \<and> error_published w' task_id"
    using clone_raise_error [OF assms] by blast
next
  assume "invalid_url url \<or>
            ((\<exists>k. key sha1_hex8 url = Inr k)
             \<and> (refresh \<or> get_cached_path sha1_hex8 w url = Inr None)
             \<and> (e_makedirs ev \<noteq> None \<or> \<not> e_which_git ev \<or> isl (e_spawn ev)))"
  then show "\<exists>w'. ensure_cached_repo sha1_hex8 w task_id url refresh max_seconds depth ev
                     = Some (w', Inr [])
                 \<and> error_published w' task_id"
    by (rule cache_early_error [OF assms])
next
  fix k w0 proc w1 e
  assume "\<not> invalid_url url \<and> key sha1_hex8 url = Inr k
            \<and> (refresh \<or> get_cached_path sha1_hex8 w url = Inr None)
            \<and> cache_start w task_id url (path_join CACHE_ROOT k) depth ev = Inr (w0, proc)
            \<and> cache_loop task_id proc (e_start ev) max_seconds w0 (e_ticks ev) = Raised w1 e"
  then show "\<exists>w'. ensure_cached_repo sha1_hex8 w task_id url refresh max_seconds depth ev
                     = Some (w', Inr [])
                 \<and> error_published w' task_id"
    using cache_raise_error [OF assms] by blast
qed

lemma clone_iteration_raises:
  "\<not> is_canceled w i \<Longrightarrow> t_ext t = None \<Longrightarrow> \<not> (t_now t - st > of_int mx) \<Longrightarrow>
   t_read t = ReadRaises e \<Longrightarrow> clone_iteration i pr st mx w t = Raised w e"
  by (simp add: clone_iteration_def apply_ext_def)

lemma cache_iteration_raises:
  "\<not> is_canceled w i \<Longrightarrow> t_ext t = None \<Longrightarrow> \<not> (t_now t - st > of_int mx) \<Longrightarrow>
   t_read t = ReadRaises e \<Longrightarrow> cache_iteration i pr st mx w t = Raised w e"
  by (simp add: cache_iteration_def apply_ext_def)

lemma invalid_empty: "invalid_url []"
  by (simp add: invalid_url_def)

lemma raise_run_clone:
  "\<exists>w0 w1 e. clone_start world0 ''t1'' url_widgets 1 env_raise =
                 Inr (w0, 4242, path_join ''/tmp/tmpab12'' (repo_name url_widgets))
     \<and> clone_loop ''t1'' 4242 (e_start env_raise) 180 w0 (e_ticks env_raise) = Raised w1 e"
proof -
  obtain w0 where s: "clone_start world0 ''t1'' url_widgets 1 env_raise =
        Inr (w0, 4242, path_join ''/tmp/tmpab12'' (repo_name url_widgets))"
      and nc: "\<not> is_canceled w0 ''t1''"
    using start_t1 [of env_raise] by (auto simp: env_raise_def)
  have "clone_iteration ''t1'' 4242 0 180 w0
          \<lparr>t_ext = None, t_now = 1, t_read = ReadRaises (Exception ''invalid start byte''), t_poll = None,
            t_after = 1\<rparr>
        = Raised w0 (Exception ''invalid start byte'')"
    by (rule clone_iteration_raises [OF nc]) simp_all
  then have "clone_loop ''t1'' 4242 (e_start env_raise) 180 w0 (e_ticks env_raise) =
             Raised w0 (Exception ''invalid start byte'')"
    by (simp add: env_raise_def)
  with s show ?thesis by blast
qed

lemma raise_run_cache:
  "\<exists>w0 w1 e. cache_start world0 ''t1'' url_widgets (path_join CACHE_ROOT ''widgets-1d8341cf'') 1 env_raise =
                 Inr (w0, 4242)
     \<and> cache_loop ''t1'' 4242 (e_start env_raise) 180 w0 (e_ticks env_raise) = Raised w1 e"
proof -
  let ?cp = "path_join CACHE_ROOT ''widgets-1d8341cf''"
  have ev: "e_makedirs env_raise = None" "e_which_git env_raise" "e_spawn env_raise = Inr 4242"
    by (simp_all add: env_raise_def)
  obtain w0 where s: "cache_start world0 ''t1'' url_widgets ?cp 1 env_raise = Inr (w0, 4242)"
    using cache_start_ok [OF ev] by blast
  have nc0: "\<not> is_canceled w0 ''t1''"
    using cache_start_Inr(4) [OF s] not_canceled_world0 by simp
  have "cache_iteration ''t1'' 4242 0 180 w0
          \<lparr>t_ext = None, t_now = 1, t_read = ReadRaises (Exception ''invalid start byte''), t_poll = None,
            t_after = 1\<rparr>
        = Raised w0 (Exception ''invalid start byte'')"
    by (rule cache_iteration_raises [OF nc0]) simp_all
  then have "cache_loop ''t1'' 4242 (e_start env_raise) 180 w0 (e_ticks env_raise) =
             Raised w0 (Exception ''invalid start byte'')"
    by (simp add: env_raise_def)
  with s show ?thesis by blast
qed

lemma listed_failures_example:
  "(\<exists>w'. interruptible_clone world0 ''t1'' [] 180 1 env_nogit = Some (w', [])
        \<and> error_published w' ''t1'')
 \<and> (\<exists>w'. interruptible_clone world0 ''t1'' url_widgets 180 1 env_nogit = Some (w', [])
        \<and> error_published w' ''t1'')
 \<and> (\<exists>w'. interruptible_clone world0 ''t1'' url_widgets 180 1 env_raise = Some (w', [])
        \<and> error_published w' ''t1'')
 \<and> (\<exists>w'. ensure_cached_repo sha_stub world0 ''t1'' url_widgets False 180 1 env_nogit = Some (w', Inr [])
        \<and> error_published w' ''t1'')
 \<and> (\<exists>w'. ensure_cached_repo sha_stub world0 ''t1'' url_widgets False 180 1 env_raise = Some (w', Inr [])
        \<and> error_published w' ''t1'')"
proof -
  have wr: "path ''t1'' \<notin> unwritable world0" by (simp add: world0_def)
  note a = listed_failures_write_error_records [OF wr, of "[]" env_nogit 180 1 sha_stub False]
  note b = listed_failures_write_error_records [OF wr, of url_widgets env_nogit 180 1 sha_stub False]
  note c = listed_failures_write_error_records [OF wr, of url_widgets env_raise 180 1 sha_stub False]
  have c1: "invalid_url [] \<or> isl (e_mkdtemp env_nogit) \<or> isl (e_spawn env_nogit)"
    by (simp add: invalid_empty)
  have c2: "invalid_url url_widgets \<or> isl (e_mkdtemp env_nogit) \<or> isl (e_spawn env_nogit)"
    by (simp add: env_nogit_def)
  have c3: "invalid_url url_widgets \<or>
            ((\<exists>k. key sha_stub url_widgets = Inr k)
             \<and> (False \<or> get_cached_path sha_stub world0 url_widgets = Inr None)
             \<and> (e_makedirs env_nogit \<noteq> None \<or> \<not> e_which_git env_nogit \<or> isl (e_spawn env_nogit)))"
    by (simp add: not_cached_world0 env_nogit_def key_widgets)
  have m: "False \<or> get_cached_path sha_stub world0 url_widgets = Inr None"
    by (simp add: not_cached_world0)
  have r1: "\<exists>w'. interruptible_clone world0 ''t1'' url_widgets 180 1 env_raise = Some (w', [])
        \<and> error_published w' ''t1''"
    using c raise_run_clone by blast
  have r2: "\<exists>w'. ensure_cached_repo sha_stub world0 ''t1'' url_widgets False 180 1 env_raise = Some (w', Inr [])
        \<and> error_published w' ''t1''"
    using c raise_run_cache not_invalid_widgets m key_widgets by blast
  from a c1 b c2 c3 r1 r2 show ?thesis by blast
qed

lemma invalid_surrogate: "\<not> invalid_url url_surrogate"
  by (simp add: invalid_url_def url_surrogate_def)

lemma key_surrogate: "key h url_surrogate = Inl (Exception ''surrogates not allowed'')"
  by (simp add: key_def encode_utf8_def url_surrogate_def)

text \<open>
  C4 fails in the code: \<^verbatim>\<open>ensure_cached_repo\<close> can raise to its caller.  It computes the
  cache key, which encodes the URL as UTF-8, after the URL check and before its \<^verbatim>\<open>try\<close>
  block.  For a URL that names the hosting domain and holds a lone surrogate the
  encoding raises \<^verbatim>\<open>UnicodeEncodeError\<close>: in every world and every environment, whatever
  the other arguments, the call raises that exception to its caller, and it has written
  no progress record (the world is unchanged).
\<close>

theorem surrogate_url_raises:
  "invalid_url url_surrogate = False
   \<and> ensure_cached_repo sha1_hex8 w task_id url_surrogate refresh timeout depth ev
       = Some (w, Inl (Exception ''surrogates not allowed''))"
  using invalid_surrogate by (simp add: ensure_cached_repo_def key_surrogate)

end
